theory Spec2Isabelle
  imports Main "HOL-Library.Word"
begin

unbundle bit_operations_syntax

section \<open>Data model of stratcom.cpp\<close>

text \<open>
  The C++ source computes on \<open>std::uint8_t\<close> and \<open>std::uint16_t\<close> fields. Every
  arithmetic or bitwise operator first promotes its operands to \<open>int\<close>, which is
  modelled as a 32-bit word; storing the result back into a narrower field truncates
  (\<open>ucast\<close>).
\<close>

type_synonym uint8 = "8 word"
type_synonym uint16 = "16 word"
type_synonym c_int = "32 word"

datatype stratcom_return = STRATCOM_RET_SUCCESS | STRATCOM_RET_ERROR | STRATCOM_RET_NO_DATA

datatype stratcom_led_state = STRATCOM_LED_ON | STRATCOM_LED_BLINK | STRATCOM_LED_OFF

datatype stratcom_slider_state = STRATCOM_SLIDER_1 | STRATCOM_SLIDER_2 | STRATCOM_SLIDER_3

datatype stratcom_axis = STRATCOM_AXIS_X | STRATCOM_AXIS_Y | STRATCOM_AXIS_Z

text \<open>
  Modelled from the spec: the header stratcom.h, which declares the enumerations
  \<open>stratcom_button_led\<close> and \<open>stratcom_button\<close> and the word types
  \<open>stratcom_button_word\<close> and \<open>stratcom_axis_word\<close>, is not among the sources.
  The spec gives the LED mask two bits per button, the low one meaning "on" and the next
  one "blink", for seven physical buttons, and the source says that the values of
  \<open>stratcom_button_led\<close> are the masks of the "on" bits; so the LED selectors are the
  even bits 0, 2, .., 12, with ALL their union and NONE zero. The button word is a 12-bit
  mask over the twelve logical buttons in canonical order, one bit each, and NONE is
  zero. The button word is an unsigned 16-bit value and an axis word a signed 16-bit
  value (read with \<open>sint\<close>). An enumeration value is an integer, so that values
  outside the enumerators exist, as the \<open>default\<close> branches of the source expect.
\<close>

type_synonym stratcom_button_led = c_int
type_synonym stratcom_button = c_int
type_synonym stratcom_button_word = uint16
type_synonym stratcom_axis_word = uint16

definition STRATCOM_LEDBUTTON_1 :: stratcom_button_led where "STRATCOM_LEDBUTTON_1 = 0x0001"
definition STRATCOM_LEDBUTTON_2 :: stratcom_button_led where "STRATCOM_LEDBUTTON_2 = 0x0004"
definition STRATCOM_LEDBUTTON_3 :: stratcom_button_led where "STRATCOM_LEDBUTTON_3 = 0x0010"
definition STRATCOM_LEDBUTTON_4 :: stratcom_button_led where "STRATCOM_LEDBUTTON_4 = 0x0040"
definition STRATCOM_LEDBUTTON_5 :: stratcom_button_led where "STRATCOM_LEDBUTTON_5 = 0x0100"
definition STRATCOM_LEDBUTTON_6 :: stratcom_button_led where "STRATCOM_LEDBUTTON_6 = 0x0400"
definition STRATCOM_LEDBUTTON_REC :: stratcom_button_led where "STRATCOM_LEDBUTTON_REC = 0x1000"
definition STRATCOM_LEDBUTTON_ALL :: stratcom_button_led where "STRATCOM_LEDBUTTON_ALL = 0x1555"
definition STRATCOM_LEDBUTTON_NONE :: stratcom_button_led where "STRATCOM_LEDBUTTON_NONE = 0"

definition STRATCOM_BUTTON_1 :: stratcom_button where "STRATCOM_BUTTON_1 = 0x001"
definition STRATCOM_BUTTON_2 :: stratcom_button where "STRATCOM_BUTTON_2 = 0x002"
definition STRATCOM_BUTTON_3 :: stratcom_button where "STRATCOM_BUTTON_3 = 0x004"
definition STRATCOM_BUTTON_4 :: stratcom_button where "STRATCOM_BUTTON_4 = 0x008"
definition STRATCOM_BUTTON_5 :: stratcom_button where "STRATCOM_BUTTON_5 = 0x010"
definition STRATCOM_BUTTON_6 :: stratcom_button where "STRATCOM_BUTTON_6 = 0x020"
definition STRATCOM_BUTTON_PLUS :: stratcom_button where "STRATCOM_BUTTON_PLUS = 0x040"
definition STRATCOM_BUTTON_MINUS :: stratcom_button where "STRATCOM_BUTTON_MINUS = 0x080"
definition STRATCOM_BUTTON_SHIFT1 :: stratcom_button where "STRATCOM_BUTTON_SHIFT1 = 0x100"
definition STRATCOM_BUTTON_SHIFT2 :: stratcom_button where "STRATCOM_BUTTON_SHIFT2 = 0x200"
definition STRATCOM_BUTTON_SHIFT3 :: stratcom_button where "STRATCOM_BUTTON_SHIFT3 = 0x400"
definition STRATCOM_BUTTON_REC :: stratcom_button where "STRATCOM_BUTTON_REC = 0x800"
definition STRATCOM_BUTTON_NONE :: stratcom_button where "STRATCOM_BUTTON_NONE = 0"

text \<open>The three-byte HID feature report and the seven-byte HID input report.\<close>

record feature_report =
  fb0 :: uint8
  fb1 :: uint8
  fb2 :: uint8

record input_report =
  b0 :: uint8
  b1 :: uint8
  b2 :: uint8
  b3 :: uint8
  b4 :: uint8
  b5 :: uint8
  b6 :: uint8

record stratcom_input_state =
  buttons :: stratcom_button_word
  slider :: stratcom_slider_state
  axisX :: stratcom_axis_word
  axisY :: stratcom_axis_word
  axisZ :: stratcom_axis_word

record blink_state_T =
  on_time :: uint8
  off_time :: uint8

text \<open>
  The device handle without its hidapi connection: the transport is external, and every
  function that talks to it takes the transport's answer as an argument.
\<close>

record stratcom_device =
  led_button_state :: uint16
  blink_state :: blink_state_T
  led_button_state_has_unflushed_changes :: bool
  input_state :: stratcom_input_state

section \<open>LED state\<close>

text \<open>
  The compound assignments \<open>x &= e\<close> and \<open>x |= e\<close> on a 16-bit field with an
  \<open>int\<close> right-hand side: the field is promoted, the operation is done on \<open>int\<close>,
  and the result is truncated to 16 bits.
\<close>

definition and_assign :: "uint16 \<Rightarrow> c_int \<Rightarrow> uint16" where
  "and_assign x e = ucast ((ucast x :: c_int) AND e)"

definition or_assign :: "uint16 \<Rightarrow> c_int \<Rightarrow> uint16" where
  "or_assign x e = ucast ((ucast x :: c_int) OR e)"

definition stratcom_get_button_led_state ::
  "stratcom_device \<Rightarrow> stratcom_button_led \<Rightarrow> stratcom_led_state" where
  "stratcom_get_button_led_state device led =
     (if led = STRATCOM_LEDBUTTON_ALL \<or> led = STRATCOM_LEDBUTTON_NONE then STRATCOM_LED_OFF
      else if (ucast (led_button_state device) :: c_int) AND led \<noteq> 0 then STRATCOM_LED_ON
      else if (ucast (led_button_state device) :: c_int) AND push_bit 1 led \<noteq> 0
        then STRATCOM_LED_BLINK
      else STRATCOM_LED_OFF)"

definition stratcom_set_button_led_state_without_flushing ::
  "stratcom_device \<Rightarrow> stratcom_button_led \<Rightarrow> stratcom_led_state \<Rightarrow> stratcom_device" where
  "stratcom_set_button_led_state_without_flushing device led state =
     (let button_mask = (ucast led :: uint16);
          device' =
            (case state of
               STRATCOM_LED_BLINK \<Rightarrow>
                 (let d1 = device\<lparr>led_button_state :=
                             and_assign (led_button_state device) (NOT (ucast button_mask))\<rparr>
                  in d1\<lparr>led_button_state :=
                             or_assign (led_button_state d1) (push_bit 1 (ucast button_mask))\<rparr>)
             | STRATCOM_LED_ON \<Rightarrow>
                 (let d1 = device\<lparr>led_button_state :=
                             and_assign (led_button_state device)
                               (NOT (push_bit 1 (ucast button_mask)))\<rparr>
                  in d1\<lparr>led_button_state :=
                             or_assign (led_button_state d1) (ucast button_mask)\<rparr>)
             | STRATCOM_LED_OFF \<Rightarrow>
                 (let d1 = device\<lparr>led_button_state :=
                             and_assign (led_button_state device) (NOT (ucast button_mask))\<rparr>
                  in d1\<lparr>led_button_state :=
                             and_assign (led_button_state d1)
                               (NOT (push_bit 1 (ucast button_mask)))\<rparr>))
      in device'\<lparr>led_button_state_has_unflushed_changes := True\<rparr>)"

text \<open>
  The report that \<open>stratcom_flush_button_led_state\<close> builds before it hands it to
  \<open>hid_send_feature_report\<close>.
\<close>

definition led_feature_report :: "stratcom_device \<Rightarrow> feature_report" where
  "led_feature_report device =
     \<lparr>fb0 = 0x01,
      fb1 = ucast ((ucast (led_button_state device) :: c_int) AND 0xff),
      fb2 = ucast (drop_bit 8 (ucast (led_button_state device) :: c_int) AND 0xff)\<rparr>"

text \<open>
  \<open>send\<close> stands for \<open>hid_send_feature_report\<close> on the device's connection: it
  answers the number of bytes written, or a negative number.
\<close>

definition stratcom_flush_button_led_state ::
  "(feature_report \<Rightarrow> int) \<Rightarrow> stratcom_device \<Rightarrow> stratcom_return \<times> stratcom_device" where
  "stratcom_flush_button_led_state send device =
     (let report = led_feature_report device
      in if send report \<noteq> 3 then (STRATCOM_RET_ERROR, device)
         else (STRATCOM_RET_SUCCESS, device\<lparr>led_button_state_has_unflushed_changes := False\<rparr>))"

definition stratcom_set_button_led_state ::
  "(feature_report \<Rightarrow> int) \<Rightarrow> stratcom_device \<Rightarrow> stratcom_button_led \<Rightarrow> stratcom_led_state
     \<Rightarrow> stratcom_return \<times> stratcom_device" where
  "stratcom_set_button_led_state send device led state =
     stratcom_flush_button_led_state send
       (stratcom_set_button_led_state_without_flushing device led state)"

text \<open>
  \<open>get\<close> stands for \<open>hid_get_feature_report\<close>: given the report id written to the
  first byte of the buffer, it answers the number of bytes read and the filled buffer.
\<close>

definition stratcom_read_button_led_state ::
  "(uint8 \<Rightarrow> int \<times> feature_report) \<Rightarrow> stratcom_device \<Rightarrow> stratcom_return \<times> stratcom_device"
  where
  "stratcom_read_button_led_state get device =
     (case get 0x01 of (res, rep) \<Rightarrow>
        if res \<noteq> 3 then (STRATCOM_RET_ERROR, device)
        else (STRATCOM_RET_SUCCESS,
              device\<lparr>led_button_state :=
                        ucast ((ucast (ucast (fb1 rep) :: uint16) :: c_int)
                               OR push_bit 8 (ucast (ucast (fb2 rep) :: uint16) :: c_int)),
                     led_button_state_has_unflushed_changes := False\<rparr>))"

section \<open>Decoding input reports\<close>

text \<open>
  \<open>evaluateInputReport\<close> writes the decoded fields into the state it is given by
  reference (here \<open>state\<close>); the model returns the result code with the updated
  state. The expressions
  are evaluated on \<open>int\<close>; an axis field, a signed 16-bit value, is promoted with sign
  extension (\<open>scast\<close>).
\<close>

definition evaluateInputReport ::
  "input_report \<Rightarrow> stratcom_input_state \<Rightarrow> stratcom_return \<times> stratcom_input_state" where
  "evaluateInputReport report state =
     (if b0 report \<noteq> 0x01 then (STRATCOM_RET_ERROR, state)
      else
        let s1 = state\<lparr>buttons :=
                   ucast (push_bit 8 ((ucast (b6 report) :: c_int) AND 0x0F)
                          OR ucast (b5 report))\<rparr>;
            s2 = (if (ucast (b6 report) :: c_int) AND 0x30 = 0x30
                  then s1\<lparr>slider := STRATCOM_SLIDER_1\<rparr>
                  else s1\<lparr>slider := (if (ucast (b6 report) :: c_int) AND 0x20 \<noteq> 0
                                      then STRATCOM_SLIDER_2 else STRATCOM_SLIDER_3)\<rparr>);
            s3 = s2\<lparr>axisX :=
                   ucast (push_bit 8 ((ucast (b2 report) :: c_int) AND 0x03)
                          OR ucast (b1 report))\<rparr>;
            s4 = (if (scast (axisX s3) :: c_int) AND 0x200 \<noteq> 0
                  then s3\<lparr>axisX := ucast (- (((scast (axisX s3) :: c_int) XOR 0x3FF) + 1))\<rparr>
                  else s3);
            s5 = s4\<lparr>axisY :=
                   ucast (push_bit 6 ((ucast (b3 report) :: c_int) AND 0x0f)
                          OR drop_bit 2 ((ucast (b2 report) :: c_int) AND 0xfc))\<rparr>;
            s6 = (if (scast (axisY s5) :: c_int) AND 0x200 \<noteq> 0
                  then s5\<lparr>axisY := ucast (- (((scast (axisY s5) :: c_int) XOR 0x3FF) + 1))\<rparr>
                  else s5);
            s7 = s6\<lparr>axisZ :=
                   ucast (push_bit 4 ((ucast (b4 report) :: c_int) AND 0x3f)
                          OR drop_bit 4 ((ucast (b3 report) :: c_int) AND 0xf0))\<rparr>;
            s8 = (if (scast (axisZ s7) :: c_int) AND 0x200 \<noteq> 0
                  then s7\<lparr>axisZ := ucast (- (((scast (axisZ s7) :: c_int) XOR 0x3FF) + 1))\<rparr>
                  else s7)
        in (STRATCOM_RET_SUCCESS, s8))"

text \<open>
  The three read functions. \<open>rd\<close> is the answer of \<open>hid_read\<close> (or
  \<open>hid_read_timeout\<close>): the number of bytes read, or a negative number, and the
  buffer. Switching the connection between blocking and non-blocking touches the
  transport only.
\<close>

definition stratcom_read_input ::
  "int \<times> input_report \<Rightarrow> stratcom_device \<Rightarrow> stratcom_return \<times> stratcom_device" where
  "stratcom_read_input rd device =
     (case rd of (res, report) \<Rightarrow>
        if res = 7 then
          (case evaluateInputReport report (input_state device) of
             (r, st) \<Rightarrow> (r, device\<lparr>input_state := st\<rparr>))
        else (STRATCOM_RET_ERROR, device))"

definition stratcom_read_input_with_timeout ::
  "int \<times> input_report \<Rightarrow> stratcom_device \<Rightarrow> stratcom_return \<times> stratcom_device" where
  "stratcom_read_input_with_timeout rd device =
     (case rd of (res, report) \<Rightarrow>
        if res = 7 then
          (case evaluateInputReport report (input_state device) of
             (r, st) \<Rightarrow> (r, device\<lparr>input_state := st\<rparr>))
        else if res \<noteq> 0 then (STRATCOM_RET_ERROR, device)
        else (STRATCOM_RET_NO_DATA, device))"

definition stratcom_read_input_non_blocking ::
  "int \<times> input_report \<Rightarrow> stratcom_device \<Rightarrow> stratcom_return \<times> stratcom_device" where
  "stratcom_read_input_non_blocking rd device =
     (case rd of (res, report) \<Rightarrow>
        if res = 7 then
          (case evaluateInputReport report (input_state device) of
             (r, st) \<Rightarrow> (r, device\<lparr>input_state := st\<rparr>))
        else if res \<noteq> 0 then (STRATCOM_RET_ERROR, device)
        else (STRATCOM_RET_NO_DATA, device))"

section \<open>Iterating the buttons\<close>

definition stratcom_iterate_buttons_range_begin :: stratcom_button where
  "stratcom_iterate_buttons_range_begin = STRATCOM_BUTTON_1"

definition stratcom_iterate_buttons_range_end :: stratcom_button where
  "stratcom_iterate_buttons_range_end = STRATCOM_BUTTON_NONE"

definition stratcom_iterate_buttons_range_increment :: "stratcom_button \<Rightarrow> stratcom_button"
  where
  "stratcom_iterate_buttons_range_increment button =
     (if button = STRATCOM_BUTTON_1 then STRATCOM_BUTTON_2
      else if button = STRATCOM_BUTTON_2 then STRATCOM_BUTTON_3
      else if button = STRATCOM_BUTTON_3 then STRATCOM_BUTTON_4
      else if button = STRATCOM_BUTTON_4 then STRATCOM_BUTTON_5
      else if button = STRATCOM_BUTTON_5 then STRATCOM_BUTTON_6
      else if button = STRATCOM_BUTTON_6 then STRATCOM_BUTTON_PLUS
      else if button = STRATCOM_BUTTON_PLUS then STRATCOM_BUTTON_MINUS
      else if button = STRATCOM_BUTTON_MINUS then STRATCOM_BUTTON_SHIFT1
      else if button = STRATCOM_BUTTON_SHIFT1 then STRATCOM_BUTTON_SHIFT2
      else if button = STRATCOM_BUTTON_SHIFT2 then STRATCOM_BUTTON_SHIFT3
      else if button = STRATCOM_BUTTON_SHIFT3 then STRATCOM_BUTTON_REC
      else if button = STRATCOM_BUTTON_REC then STRATCOM_BUTTON_NONE
      else STRATCOM_BUTTON_NONE)"

section \<open>Input events on the heap\<close>

text \<open>
  An event node: \<open>type\<close> and the union \<open>desc\<close> make one tagged value, \<open>next\<close> is
  the link. The status of a button event is the \<open>int\<close> 0 or 1.
\<close>

datatype stratcom_input_event_desc =
    STRATCOM_INPUT_EVENT_SLIDER stratcom_slider_state
  | STRATCOM_INPUT_EVENT_AXIS stratcom_axis stratcom_axis_word
  | STRATCOM_INPUT_EVENT_BUTTON stratcom_button c_int

type_synonym addr = nat

text \<open>A pointer to an event: \<open>None\<close> is \<open>nullptr\<close>.\<close>

type_synonym event_ptr = "addr option"

record stratcom_input_event =
  desc :: stratcom_input_event_desc
  next_ptr :: event_ptr

text \<open>
  The free store holding the event nodes. A cell is addressed by its index;
  \<open>Some node\<close> is a live node and \<open>None\<close> a deleted one. \<open>new\<close> takes the next
  index, so a fresh address differs from every address in use. \<open>budget\<close> is the number
  of coming \<open>new\<close> expressions that succeed: the one after them throws
  \<open>std::bad_alloc\<close>.
\<close>

record heap =
  cells :: "stratcom_input_event option list"
  budget :: nat

datatype exn = bad_alloc

text \<open>Reading through or deleting a null or dangling pointer is undefined behaviour.\<close>

datatype fault = invalid_pointer

definition lookup :: "stratcom_input_event option list \<Rightarrow> addr \<Rightarrow> stratcom_input_event option"
  where
  "lookup c a = (if a < length c then c ! a else None)"

text \<open>
  A statement inside the \<open>try\<close> block works on the local \<open>ret\<close> and the heap and
  either completes or throws; \<open>then_stmt\<close> runs two statements in sequence.
\<close>

type_synonym try_state = "event_ptr \<times> heap"

definition then_stmt ::
  "(try_state \<Rightarrow> (exn + unit) \<times> try_state) \<Rightarrow> (try_state \<Rightarrow> (exn + unit) \<times> try_state)
     \<Rightarrow> try_state \<Rightarrow> (exn + unit) \<times> try_state" where
  "then_stmt f g s = (case f s of (Inl e, s') \<Rightarrow> (Inl e, s') | (Inr u, s') \<Rightarrow> g s')"

text \<open>
  \<open>auto ev = new stratcom_input_event; ev->type = ..; ev->desc = ..; ev->next = ret;
  ret = ev;\<close>
\<close>

definition add_event :: "stratcom_input_event_desc \<Rightarrow> try_state \<Rightarrow> (exn + unit) \<times> try_state"
  where
  "add_event d s =
     (case s of (ret, h) \<Rightarrow>
        if budget h = 0 then (Inl bad_alloc, (ret, h))
        else (Inr (),
              (Some (length (cells h)),
               h\<lparr>cells := cells h @ [Some \<lparr>desc = d, next_ptr = ret\<rparr>],
                 budget := budget h - 1\<rparr>)))"

definition evaluate_axis_states ::
  "stratcom_axis_word \<Rightarrow> stratcom_axis_word \<Rightarrow> stratcom_axis \<Rightarrow> try_state
     \<Rightarrow> (exn + unit) \<times> try_state" where
  "evaluate_axis_states old_val new_val axis s =
     (if old_val \<noteq> new_val then add_event (STRATCOM_INPUT_EVENT_AXIS axis new_val) s
      else (Inr (), s))"

text \<open>The body of the loop over the buttons, for the button \<open>b\<close>.\<close>

definition button_body ::
  "stratcom_input_state \<Rightarrow> stratcom_input_state \<Rightarrow> stratcom_button \<Rightarrow> try_state
     \<Rightarrow> (exn + unit) \<times> try_state" where
  "button_body old_state new_state b s =
     (if (ucast (buttons old_state) :: c_int) AND b \<noteq> (ucast (buttons new_state) :: c_int) AND b
      then add_event
             (STRATCOM_INPUT_EVENT_BUTTON b
                (if (ucast (buttons new_state) :: c_int) AND b = 0 then 0 else 1)) s
      else (Inr (), s))"

text \<open>
  The number of steps of \<open>stratcom_iterate_buttons_range_increment\<close> from a button to
  the end of the range: the measure under which the loop terminates.
\<close>

definition buttons_left :: "stratcom_button \<Rightarrow> nat" where
  "buttons_left b =
     (if b = STRATCOM_BUTTON_1 then 12
      else if b = STRATCOM_BUTTON_2 then 11
      else if b = STRATCOM_BUTTON_3 then 10
      else if b = STRATCOM_BUTTON_4 then 9
      else if b = STRATCOM_BUTTON_5 then 8
      else if b = STRATCOM_BUTTON_6 then 7
      else if b = STRATCOM_BUTTON_PLUS then 6
      else if b = STRATCOM_BUTTON_MINUS then 5
      else if b = STRATCOM_BUTTON_SHIFT1 then 4
      else if b = STRATCOM_BUTTON_SHIFT2 then 3
      else if b = STRATCOM_BUTTON_SHIFT3 then 2
      else if b = STRATCOM_BUTTON_NONE then 0
      else 1)"

function button_loop ::
  "stratcom_input_state \<Rightarrow> stratcom_input_state \<Rightarrow> stratcom_button \<Rightarrow> try_state
     \<Rightarrow> (exn + unit) \<times> try_state" where
  "button_loop old_state new_state b s =
     (if b = stratcom_iterate_buttons_range_end then (Inr (), s)
      else (case button_body old_state new_state b s of
              (Inl e, s') \<Rightarrow> (Inl e, s')
            | (Inr u, s') \<Rightarrow>
                button_loop old_state new_state (stratcom_iterate_buttons_range_increment b) s'))"
  by pat_completeness auto
termination
proof (relation "measure (\<lambda>(old_state, new_state, b, s). buttons_left b)")
  show "wf (measure (\<lambda>(old_state, new_state, b, s). buttons_left b))" by simp
next
  fix old_state new_state :: stratcom_input_state
  fix b :: stratcom_button and s :: try_state and x :: "(exn + unit) \<times> try_state"
  fix u and s' :: try_state and y :: unit
  assume "b \<noteq> stratcom_iterate_buttons_range_end"
  then have "buttons_left (stratcom_iterate_buttons_range_increment b) < buttons_left b"
    by (simp add: buttons_left_def stratcom_iterate_buttons_range_increment_def
          stratcom_iterate_buttons_range_end_def
          STRATCOM_BUTTON_1_def STRATCOM_BUTTON_2_def STRATCOM_BUTTON_3_def
          STRATCOM_BUTTON_4_def STRATCOM_BUTTON_5_def STRATCOM_BUTTON_6_def
          STRATCOM_BUTTON_PLUS_def STRATCOM_BUTTON_MINUS_def STRATCOM_BUTTON_SHIFT1_def
          STRATCOM_BUTTON_SHIFT2_def STRATCOM_BUTTON_SHIFT3_def STRATCOM_BUTTON_REC_def
          STRATCOM_BUTTON_NONE_def)
  then show "((old_state, new_state, stratcom_iterate_buttons_range_increment b, s'),
              (old_state, new_state, b, s))
             \<in> measure (\<lambda>(old_state, new_state, b, s). buttons_left b)"
    by simp
qed

declare button_loop.simps [simp del]

text \<open>The statements of the \<open>try\<close> block, in the order of the source.\<close>

definition events_try_block ::
  "stratcom_input_state \<Rightarrow> stratcom_input_state \<Rightarrow> try_state \<Rightarrow> (exn + unit) \<times> try_state"
  where
  "events_try_block old_state new_state =
     then_stmt
       (\<lambda>s. if slider old_state \<noteq> slider new_state
            then add_event (STRATCOM_INPUT_EVENT_SLIDER (slider new_state)) s
            else (Inr (), s))
    (then_stmt
       (evaluate_axis_states (axisX old_state) (axisX new_state) STRATCOM_AXIS_X)
    (then_stmt
       (evaluate_axis_states (axisY old_state) (axisY new_state) STRATCOM_AXIS_Y)
    (then_stmt
       (evaluate_axis_states (axisZ old_state) (axisZ new_state) STRATCOM_AXIS_Z)
       (\<lambda>s. if buttons old_state \<noteq> buttons new_state
            then button_loop old_state new_state stratcom_iterate_buttons_range_begin s
            else (Inr (), s)))))"

text \<open>
  \<open>stratcom_free_input_events\<close> deletes node after node. Each round turns a live cell
  into a deleted one, so the loop ends; a pointer to no live cell is a fault.
\<close>

function stratcom_free_input_events :: "event_ptr \<Rightarrow> heap \<Rightarrow> fault + heap" where
  "stratcom_free_input_events events h =
     (case events of
        None \<Rightarrow> Inr h
      | Some to_delete \<Rightarrow>
          (case lookup (cells h) to_delete of
             None \<Rightarrow> Inl invalid_pointer
           | Some node \<Rightarrow>
               stratcom_free_input_events (next_ptr node)
                 (h\<lparr>cells := (cells h)[to_delete := None]\<rparr>)))"
  by pat_completeness auto
termination
proof (relation "measure (\<lambda>(events, h). card {i. i < length (cells h) \<and> cells h ! i \<noteq> None})")
  show "wf (measure (\<lambda>(events, h). card {i. i < length (cells h) \<and> cells h ! i \<noteq> None}))"
    by simp
next
  fix events :: event_ptr and h :: heap and a :: addr and node :: stratcom_input_event
  assume "events = Some a" and live: "lookup (cells h) a = Some node"
  let ?c = "cells h"
  let ?L = "{i. i < length ?c \<and> ?c ! i \<noteq> None}"
  let ?L' = "{i. i < length (?c[a := None]) \<and> ?c[a := None] ! i \<noteq> None}"
  have a: "a < length ?c" "?c ! a \<noteq> None"
    using live by (auto simp add: lookup_def split: if_splits)
  have sub: "?L' \<subseteq> ?L - {a}"
  proof
    fix i assume i: "i \<in> ?L'"
    have "i \<noteq> a"
    proof
      assume "i = a"
      with i a(1) show False by simp
    qed
    with i show "i \<in> ?L - {a}" by simp
  qed
  have mem: "a \<in> ?L" using a by simp
  have fin: "finite ?L" by simp
  have "card ?L' \<le> card (?L - {a})"
    using sub fin by (intro card_mono) simp_all
  also have "card (?L - {a}) < card ?L"
    using fin mem by (rule card_Diff1_less)
  finally have "card ?L' < card ?L" .
  then show "((next_ptr node, h\<lparr>cells := (cells h)[a := None]\<rparr>), (events, h))
             \<in> measure (\<lambda>(events, h). card {i. i < length (cells h) \<and> cells h ! i \<noteq> None})"
    by simp
qed

declare stratcom_free_input_events.simps [simp del]

text \<open>
  \<open>ret\<close> is declared outside the \<open>try\<close> block, so the handler sees the list built
  before the exception.
\<close>

definition stratcom_create_input_events_from_states ::
  "stratcom_input_state \<Rightarrow> stratcom_input_state \<Rightarrow> heap \<Rightarrow> fault + (event_ptr \<times> heap)" where
  "stratcom_create_input_events_from_states old_state new_state h =
     (case events_try_block old_state new_state (None, h) of
        (Inr u, (ret, h')) \<Rightarrow> Inr (ret, h')
      | (Inl bad_alloc, (ret, h')) \<Rightarrow>
          (case ret of
             None \<Rightarrow> Inr (None, h')
           | Some p \<Rightarrow>
               (case stratcom_free_input_events ret h' of
                  Inl f \<Rightarrow> Inl f
                | Inr h'' \<Rightarrow> Inr (None, h''))))"

text \<open>
  \<open>while(event_it->next) { event_it = event_it->next; }\<close>: the walk to the tail. On
  a cyclic list it does not return, which is \<open>None\<close> here.
\<close>

partial_function (option) walk_to_tail ::
  "stratcom_input_event option list \<Rightarrow> addr \<Rightarrow> (fault + addr) option" where
  "walk_to_tail c event_it =
     (case lookup c event_it of
        None \<Rightarrow> Some (Inl invalid_pointer)
      | Some node \<Rightarrow>
          (case next_ptr node of
             None \<Rightarrow> Some (Inr event_it)
           | Some n \<Rightarrow> walk_to_tail c n))"

definition stratcom_append_input_events_from_states ::
  "event_ptr \<Rightarrow> stratcom_input_state \<Rightarrow> stratcom_input_state \<Rightarrow> heap
     \<Rightarrow> (fault + (event_ptr \<times> heap)) option" where
  "stratcom_append_input_events_from_states events old_state new_state h =
     (case stratcom_create_input_events_from_states old_state new_state h of
        Inl f \<Rightarrow> Some (Inl f)
      | Inr (new_events, h1) \<Rightarrow>
          (case events of
             None \<Rightarrow> Some (Inl invalid_pointer)
           | Some first \<Rightarrow>
               (case walk_to_tail (cells h1) first of
                  None \<Rightarrow> None
                | Some (Inl f) \<Rightarrow> Some (Inl f)
                | Some (Inr event_it) \<Rightarrow>
                    (case lookup (cells h1) event_it of
                       None \<Rightarrow> Some (Inl invalid_pointer)
                     | Some node \<Rightarrow>
                         Some (Inr (new_events,
                                    h1\<lparr>cells := (cells h1)
                                           [event_it := Some (node\<lparr>next_ptr := new_events\<rparr>)]\<rparr>))))))"

section \<open>Notions used to state the properties\<close>

subsection \<open>LED selectors and sequences of calls\<close>

definition stratcom_button_led_values :: "stratcom_button_led list" where
  "stratcom_button_led_values =
     [STRATCOM_LEDBUTTON_1, STRATCOM_LEDBUTTON_2, STRATCOM_LEDBUTTON_3, STRATCOM_LEDBUTTON_4,
      STRATCOM_LEDBUTTON_5, STRATCOM_LEDBUTTON_6, STRATCOM_LEDBUTTON_REC,
      STRATCOM_LEDBUTTON_ALL, STRATCOM_LEDBUTTON_NONE]"

text \<open>A sequence of calls of \<open>stratcom_set_button_led_state_without_flushing\<close>.\<close>

definition set_led_calls ::
  "(stratcom_button_led \<times> stratcom_led_state) list \<Rightarrow> stratcom_device \<Rightarrow> stratcom_device"
  where
  "set_led_calls calls device =
     fold (\<lambda>(led, state) d. stratcom_set_button_led_state_without_flushing d led state)
       calls device"

subsection \<open>The axis values as the specification words them\<close>

text \<open>
  The raw 10-bit values and the sign rule of the specification, on unbounded integers:
  \<open>(byte2 & 0x03) << 8 | byte1\<close> and so on, and "if bit 0x200 is set, the value is
  \<open>-((raw ^ 0x3FF) + 1)\<close>".
\<close>

definition axis_raw_X :: "input_report \<Rightarrow> int" where
  "axis_raw_X report = or (push_bit 8 (and (uint (b2 report)) 0x03)) (uint (b1 report))"

definition axis_raw_Y :: "input_report \<Rightarrow> int" where
  "axis_raw_Y report =
     or (push_bit 6 (and (uint (b3 report)) 0x0F)) (drop_bit 2 (and (uint (b2 report)) 0xFC))"

definition axis_raw_Z :: "input_report \<Rightarrow> int" where
  "axis_raw_Z report =
     or (push_bit 4 (and (uint (b4 report)) 0x3F)) (drop_bit 4 (and (uint (b3 report)) 0xF0))"

definition sign_extend_10 :: "int \<Rightarrow> int" where
  "sign_extend_10 raw = (if and raw 0x200 \<noteq> 0 then - ((xor raw 0x3FF) + 1) else raw)"

text \<open>
  The same raw values as the source computes them on \<open>int\<close>, and the sign correction
  that the source applies to each axis field in turn.
\<close>

definition word_raw_X :: "input_report \<Rightarrow> c_int" where
  "word_raw_X report = push_bit 8 ((ucast (b2 report) :: c_int) AND 0x03) OR ucast (b1 report)"

definition word_raw_Y :: "input_report \<Rightarrow> c_int" where
  "word_raw_Y report = push_bit 6 ((ucast (b3 report) :: c_int) AND 0x0f)
                          OR drop_bit 2 ((ucast (b2 report) :: c_int) AND 0xfc)"

definition word_raw_Z :: "input_report \<Rightarrow> c_int" where
  "word_raw_Z report = push_bit 4 ((ucast (b4 report) :: c_int) AND 0x3f)
                          OR drop_bit 4 ((ucast (b3 report) :: c_int) AND 0xf0)"

definition fix_sign :: "stratcom_axis_word \<Rightarrow> stratcom_axis_word" where
  "fix_sign a = (if (scast a :: c_int) AND 0x200 \<noteq> 0
                  then ucast (- (((scast a :: c_int) XOR 0x3FF) + 1)) else a)"

subsection \<open>The button range\<close>

definition canonical_buttons :: "stratcom_button list" where
  "canonical_buttons =
     [STRATCOM_BUTTON_1, STRATCOM_BUTTON_2, STRATCOM_BUTTON_3, STRATCOM_BUTTON_4,
      STRATCOM_BUTTON_5, STRATCOM_BUTTON_6, STRATCOM_BUTTON_PLUS, STRATCOM_BUTTON_MINUS,
      STRATCOM_BUTTON_SHIFT1, STRATCOM_BUTTON_SHIFT2, STRATCOM_BUTTON_SHIFT3,
      STRATCOM_BUTTON_REC]"

text \<open>
  The buttons that a loop \<open>for (b = begin; b != end; b = increment(b))\<close> visits when it
  starts at \<open>b\<close>. The function is total: the loop ends from every start value.
\<close>

function buttons_visited :: "stratcom_button \<Rightarrow> stratcom_button list" where
  "buttons_visited b =
     (if b = stratcom_iterate_buttons_range_end then []
      else b # buttons_visited (stratcom_iterate_buttons_range_increment b))"
  by pat_completeness auto
termination
proof (relation "measure buttons_left")
  show "wf (measure buttons_left)" by simp
next
  fix b :: stratcom_button
  assume "b \<noteq> stratcom_iterate_buttons_range_end"
  then have "buttons_left (stratcom_iterate_buttons_range_increment b) < buttons_left b"
    by (simp add: buttons_left_def stratcom_iterate_buttons_range_increment_def
          stratcom_iterate_buttons_range_end_def
          STRATCOM_BUTTON_1_def STRATCOM_BUTTON_2_def STRATCOM_BUTTON_3_def
          STRATCOM_BUTTON_4_def STRATCOM_BUTTON_5_def STRATCOM_BUTTON_6_def
          STRATCOM_BUTTON_PLUS_def STRATCOM_BUTTON_MINUS_def STRATCOM_BUTTON_SHIFT1_def
          STRATCOM_BUTTON_SHIFT2_def STRATCOM_BUTTON_SHIFT3_def STRATCOM_BUTTON_REC_def
          STRATCOM_BUTTON_NONE_def)
  then show "(stratcom_iterate_buttons_range_increment b, b) \<in> measure buttons_left"
    by simp
qed

declare buttons_visited.simps [simp del]

subsection \<open>Event lists\<close>

text \<open>
  The events for the changes between two snapshots, in the order in which the
  specification lists them, which is the order in which the source creates them: the
  slider, the axes X, Y and Z, then the buttons in canonical order.
\<close>

definition slider_change ::
  "stratcom_input_state \<Rightarrow> stratcom_input_state \<Rightarrow> stratcom_input_event_desc list" where
  "slider_change old_state new_state =
     (if slider old_state \<noteq> slider new_state
      then [STRATCOM_INPUT_EVENT_SLIDER (slider new_state)] else [])"

definition axis_change ::
  "stratcom_axis_word \<Rightarrow> stratcom_axis_word \<Rightarrow> stratcom_axis \<Rightarrow> stratcom_input_event_desc list"
  where
  "axis_change old_val new_val axis =
     (if old_val \<noteq> new_val then [STRATCOM_INPUT_EVENT_AXIS axis new_val] else [])"

text \<open>A button is pressed in a snapshot when its mask meets the button word.\<close>

definition pressed :: "stratcom_input_state \<Rightarrow> stratcom_button \<Rightarrow> bool" where
  "pressed st b = ((ucast (buttons st) :: c_int) AND b \<noteq> 0)"

definition button_change ::
  "stratcom_input_state \<Rightarrow> stratcom_input_state \<Rightarrow> stratcom_button
     \<Rightarrow> stratcom_input_event_desc list" where
  "button_change old_state new_state b =
     (if pressed old_state b \<noteq> pressed new_state b
      then [STRATCOM_INPUT_EVENT_BUTTON b (if pressed new_state b then 1 else 0)] else [])"

definition diff_events ::
  "stratcom_input_state \<Rightarrow> stratcom_input_state \<Rightarrow> stratcom_input_event_desc list" where
  "diff_events old_state new_state =
     slider_change old_state new_state
     @ axis_change (axisX old_state) (axisX new_state) STRATCOM_AXIS_X
     @ axis_change (axisY old_state) (axisY new_state) STRATCOM_AXIS_Y
     @ axis_change (axisZ old_state) (axisZ new_state) STRATCOM_AXIS_Z
     @ concat (map (button_change old_state new_state) canonical_buttons)"

text \<open>Adding the events of a list one after the other.\<close>

fun add_events :: "stratcom_input_event_desc list \<Rightarrow> try_state \<Rightarrow> (exn + unit) \<times> try_state"
  where
  "add_events [] s = (Inr (), s)"
| "add_events (d # ds) s = then_stmt (add_event d) (add_events ds) s"

text \<open>
  The cells that hold a run of events added from the address \<open>base\<close> on when \<open>ret\<close>
  was the list before, and the head of the list after them.
\<close>

fun chain :: "event_ptr \<Rightarrow> addr \<Rightarrow> stratcom_input_event_desc list
                \<Rightarrow> stratcom_input_event option list" where
  "chain ret base [] = []"
| "chain ret base (d # ds) = Some \<lparr>desc = d, next_ptr = ret\<rparr> # chain (Some base) (Suc base) ds"

fun chain_head :: "event_ptr \<Rightarrow> addr \<Rightarrow> stratcom_input_event_desc list \<Rightarrow> event_ptr" where
  "chain_head ret base [] = ret"
| "chain_head ret base (d # ds) = chain_head (Some base) (Suc base) ds"

text \<open>
  \<open>list_at c p xs\<close>: following the links from \<open>p\<close> through the cells \<open>c\<close> meets
  exactly the nodes at the addresses of \<open>xs\<close>, with the payloads of \<open>xs\<close>, and ends in
  \<open>nullptr\<close>.
\<close>

fun list_at :: "stratcom_input_event option list \<Rightarrow> event_ptr
                  \<Rightarrow> (addr \<times> stratcom_input_event_desc) list \<Rightarrow> bool" where
  "list_at c p [] = (p = None)"
| "list_at c p ((a, d) # xs) =
     (p = Some a \<and>
      (case lookup c a of
         None \<Rightarrow> False
       | Some node \<Rightarrow> desc node = d \<and> list_at c (next_ptr node) xs))"

text \<open>
  What a caller reads when it walks the list from \<open>p\<close>: the payloads in list order. No
  list without a cycle is longer than the number of cells, which bounds the walk.
\<close>

fun read_events :: "nat \<Rightarrow> stratcom_input_event option list \<Rightarrow> event_ptr
                      \<Rightarrow> stratcom_input_event_desc list option" where
  "read_events n c None = Some []"
| "read_events 0 c (Some a) = None"
| "read_events (Suc n) c (Some a) =
     (case lookup c a of
        None \<Rightarrow> None
      | Some node \<Rightarrow> map_option ((#) (desc node)) (read_events n c (next_ptr node)))"

definition events_of :: "heap \<Rightarrow> event_ptr \<Rightarrow> stratcom_input_event_desc list option" where
  "events_of h p = read_events (length (cells h)) (cells h) p"

definition created_events ::
  "stratcom_input_state \<Rightarrow> stratcom_input_state \<Rightarrow> heap
     \<Rightarrow> fault + stratcom_input_event_desc list option" where
  "created_events old_state new_state h =
     (case stratcom_create_input_events_from_states old_state new_state h of
        Inl f \<Rightarrow> Inl f
      | Inr (ret, h') \<Rightarrow> Inr (events_of h' ret))"

text \<open>The kinds of event, to count the events of a list by the field they report.\<close>

fun is_slider_event :: "stratcom_input_event_desc \<Rightarrow> bool" where
  "is_slider_event (STRATCOM_INPUT_EVENT_SLIDER v) = True"
| "is_slider_event (STRATCOM_INPUT_EVENT_AXIS axis v) = False"
| "is_slider_event (STRATCOM_INPUT_EVENT_BUTTON b v) = False"

fun is_axis_event :: "stratcom_axis \<Rightarrow> stratcom_input_event_desc \<Rightarrow> bool" where
  "is_axis_event a (STRATCOM_INPUT_EVENT_SLIDER v) = False"
| "is_axis_event a (STRATCOM_INPUT_EVENT_AXIS axis v) = (axis = a)"
| "is_axis_event a (STRATCOM_INPUT_EVENT_BUTTON b v) = False"

fun is_button_event :: "stratcom_button \<Rightarrow> stratcom_input_event_desc \<Rightarrow> bool" where
  "is_button_event b (STRATCOM_INPUT_EVENT_SLIDER v) = False"
| "is_button_event b (STRATCOM_INPUT_EVENT_AXIS axis v) = False"
| "is_button_event b (STRATCOM_INPUT_EVENT_BUTTON b' v) = (b' = b)"

section \<open>The LED mask\<close>

lemmas led_enumerators =
  STRATCOM_LEDBUTTON_1_def STRATCOM_LEDBUTTON_2_def STRATCOM_LEDBUTTON_3_def
  STRATCOM_LEDBUTTON_4_def STRATCOM_LEDBUTTON_5_def STRATCOM_LEDBUTTON_6_def
  STRATCOM_LEDBUTTON_REC_def STRATCOM_LEDBUTTON_ALL_def STRATCOM_LEDBUTTON_NONE_def

lemma and_assign_not: "and_assign x (NOT (ucast m)) = x AND NOT (m::uint16)"
  unfolding and_assign_def by (rule bit_word_eqI) (auto simp add: bit_simps)

lemma and_assign_not_shift:
  "and_assign x (NOT (push_bit k (ucast m))) = x AND NOT (push_bit k (m::uint16))"
  unfolding and_assign_def by (rule bit_word_eqI) (auto simp add: bit_simps)

lemma or_assign_plain: "or_assign x (ucast m) = x OR (m::uint16)"
  unfolding or_assign_def by (rule bit_word_eqI) (auto simp add: bit_simps)

lemma or_assign_shift: "or_assign x (push_bit k (ucast m)) = x OR push_bit k (m::uint16)"
  unfolding or_assign_def by (rule bit_word_eqI) (auto simp add: bit_simps)

lemma bit_shift_one:
  "bit (push_bit 1 (b::uint16)) n \<longleftrightarrow> n < 16 \<and> 0 < n \<and> bit b (n - 1)"
  unfolding bit_push_bit_iff by (auto simp add: possible_bit_word)

lemma set_blink:
  "led_button_state (stratcom_set_button_led_state_without_flushing d led STRATCOM_LED_BLINK)
     = (led_button_state d AND NOT (ucast led)) OR push_bit 1 (ucast led)"
  by (simp add: stratcom_set_button_led_state_without_flushing_def Let_def
        and_assign_not or_assign_shift del: One_nat_def)

lemma set_on:
  "led_button_state (stratcom_set_button_led_state_without_flushing d led STRATCOM_LED_ON)
     = (led_button_state d AND NOT (push_bit 1 (ucast led))) OR ucast led"
  by (simp add: stratcom_set_button_led_state_without_flushing_def Let_def
        and_assign_not_shift or_assign_plain del: One_nat_def)

lemma set_off:
  "led_button_state (stratcom_set_button_led_state_without_flushing d led STRATCOM_LED_OFF)
     = (led_button_state d AND NOT (ucast led)) AND NOT (push_bit 1 (ucast led))"
  by (simp add: stratcom_set_button_led_state_without_flushing_def Let_def
        and_assign_not_shift and_assign_not del: One_nat_def)

text \<open>The bit-level effect of one call on the cached mask.\<close>

lemma bit_set_led:
  "bit (led_button_state (stratcom_set_button_led_state_without_flushing d led state)) n \<longleftrightarrow>
     n < 16 \<and>
     (case state of
        STRATCOM_LED_BLINK \<Rightarrow>
          (bit (led_button_state d) n \<and> \<not> bit led n) \<or> (0 < n \<and> bit led (n - 1))
      | STRATCOM_LED_ON \<Rightarrow>
          (bit (led_button_state d) n \<and> \<not> (0 < n \<and> bit led (n - 1))) \<or> bit led n
      | STRATCOM_LED_OFF \<Rightarrow>
          bit (led_button_state d) n \<and> \<not> bit led n \<and> \<not> (0 < n \<and> bit led (n - 1)))"
proof (cases state)
  case STRATCOM_LED_ON
  then show ?thesis
    unfolding set_on STRATCOM_LED_ON bit_or_iff bit_and_iff bit_not_iff bit_shift_one
    by (auto simp add: bit_ucast_iff possible_bit_word dest: bit_imp_le_length)
next
  case STRATCOM_LED_BLINK
  then show ?thesis
    unfolding set_blink STRATCOM_LED_BLINK bit_or_iff bit_and_iff bit_not_iff bit_shift_one
    by (auto simp add: bit_ucast_iff possible_bit_word dest: bit_imp_le_length)
next
  case STRATCOM_LED_OFF
  then show ?thesis
    unfolding set_off STRATCOM_LED_OFF bit_or_iff bit_and_iff bit_not_iff bit_shift_one
    by (auto simp add: bit_ucast_iff possible_bit_word dest: bit_imp_le_length)
qed

text \<open>Every selector lies within ALL, and ALL has no two neighbouring bits.\<close>

lemma led_within_all:
  assumes "led \<in> set stratcom_button_led_values"
  shows "led AND STRATCOM_LEDBUTTON_ALL = led"
  using assms by (auto simp add: stratcom_button_led_values_def led_enumerators)

lemma all_no_neighbours: "STRATCOM_LEDBUTTON_ALL AND drop_bit 1 STRATCOM_LEDBUTTON_ALL = 0"
  by (simp add: STRATCOM_LEDBUTTON_ALL_def)

lemma led_bit_all:
  assumes "led \<in> set stratcom_button_led_values" "bit led k"
  shows "bit STRATCOM_LEDBUTTON_ALL k"
proof -
  have "bit (led AND STRATCOM_LEDBUTTON_ALL) k" using assms led_within_all by simp
  then show ?thesis by (simp add: bit_and_iff)
qed

lemma all_bit_Suc:
  assumes "bit STRATCOM_LEDBUTTON_ALL k"
  shows "\<not> bit STRATCOM_LEDBUTTON_ALL (Suc k)"
proof
  assume "bit STRATCOM_LEDBUTTON_ALL (Suc k)"
  then have "bit (drop_bit 1 STRATCOM_LEDBUTTON_ALL) k" by (simp add: bit_drop_bit_eq)
  with assms have "bit (STRATCOM_LEDBUTTON_ALL AND drop_bit 1 STRATCOM_LEDBUTTON_ALL) k"
    by (simp only: bit_and_iff)
  then show False unfolding all_no_neighbours by simp
qed

text \<open>Bits \<open>k\<close> and \<open>Suc k\<close> of the mask are not both set.\<close>

lemma led_step_establish:
  assumes "led \<in> set stratcom_button_led_values" "bit led k"
  shows "\<not> (bit (led_button_state (stratcom_set_button_led_state_without_flushing d led state)) k
           \<and> bit (led_button_state (stratcom_set_button_led_state_without_flushing d led state)) (Suc k))"
proof -
  have a: "bit STRATCOM_LEDBUTTON_ALL k" using assms by (rule led_bit_all)
  have n1: "\<not> bit led (Suc k)"
    using all_bit_Suc [OF a] led_bit_all [OF assms(1), of "Suc k"] by blast
  have n0: "0 < k \<Longrightarrow> \<not> bit led (k - 1)"
  proof
    assume "0 < k" and b: "bit led (k - 1)"
    then have "bit STRATCOM_LEDBUTTON_ALL (k - 1)" using led_bit_all [OF assms(1)] by blast
    from all_bit_Suc [OF this] \<open>0 < k\<close> a show False by simp
  qed
  show ?thesis
    using assms(2) n1 n0 by (cases state) (auto simp add: bit_set_led)
qed

lemma led_step_preserve:
  assumes "led \<in> set stratcom_button_led_values" "bit STRATCOM_LEDBUTTON_ALL k"
    and "\<not> (bit (led_button_state d) k \<and> bit (led_button_state d) (Suc k))"
  shows "\<not> (bit (led_button_state (stratcom_set_button_led_state_without_flushing d led state)) k
           \<and> bit (led_button_state (stratcom_set_button_led_state_without_flushing d led state)) (Suc k))"
proof (cases "bit led k")
  case True
  with assms(1) show ?thesis by (rule led_step_establish)
next
  case False
  have n1: "\<not> bit led (Suc k)"
    using all_bit_Suc [OF assms(2)] led_bit_all [OF assms(1), of "Suc k"] by blast
  have n0: "0 < k \<Longrightarrow> \<not> bit led (k - 1)"
  proof
    assume "0 < k" and b: "bit led (k - 1)"
    then have "bit STRATCOM_LEDBUTTON_ALL (k - 1)" using led_bit_all [OF assms(1)] by blast
    from all_bit_Suc [OF this] \<open>0 < k\<close> assms(2) show False by simp
  qed
  show ?thesis
    using assms(3) False n1 n0 by (cases state) (auto simp add: bit_set_led)
qed

lemma led_calls_preserve:
  assumes "fst ` set calls \<subseteq> set stratcom_button_led_values" "bit STRATCOM_LEDBUTTON_ALL k"
    and "\<not> (bit (led_button_state d) k \<and> bit (led_button_state d) (Suc k))"
  shows "\<not> (bit (led_button_state (set_led_calls calls d)) k
           \<and> bit (led_button_state (set_led_calls calls d)) (Suc k))"
  using assms
proof (induction calls arbitrary: d)
  case Nil
  then show ?case by (simp add: set_led_calls_def)
next
  case (Cons c calls)
  obtain led state where c: "c = (led, state)" by (cases c)
  have "led \<in> set stratcom_button_led_values" using Cons.prems(1) c by simp
  from led_step_preserve [OF this Cons.prems(2) Cons.prems(3), of state]
  have "\<not> (bit (led_button_state (set_led_calls calls
            (stratcom_set_button_led_state_without_flushing d led state))) k
         \<and> bit (led_button_state (set_led_calls calls
            (stratcom_set_button_led_state_without_flushing d led state))) (Suc k))"
    using Cons.IH Cons.prems(1,2) by simp
  then show ?case by (simp add: set_led_calls_def c)
qed

lemma led_calls_exclusive:
  assumes "fst ` set calls \<subseteq> set stratcom_button_led_values"
    and "(led, state) \<in> set calls" and "bit led k"
  shows "\<not> (bit (led_button_state (set_led_calls calls d)) k
           \<and> bit (led_button_state (set_led_calls calls d)) (Suc k))"
  using assms
proof (induction calls arbitrary: d)
  case Nil
  then show ?case by simp
next
  case (Cons c calls)
  obtain led' state' where c: "c = (led', state')" by (cases c)
  have unf: "set_led_calls (c # calls) d
      = set_led_calls calls (stratcom_set_button_led_state_without_flushing d led' state')"
    by (simp add: set_led_calls_def c)
  have sub: "fst ` set calls \<subseteq> set stratcom_button_led_values" using Cons.prems(1) by simp
  show ?case
  proof (cases "(led, state) \<in> set calls")
    case True
    from Cons.IH [OF sub True Cons.prems(3)] show ?thesis unfolding unf .
  next
    case False
    then have eq: "led' = led" "state' = state" using Cons.prems(2) c by auto
    have mem: "led \<in> set stratcom_button_led_values" using Cons.prems(1) c eq by simp
    have "bit STRATCOM_LEDBUTTON_ALL k" using mem Cons.prems(3) by (rule led_bit_all)
    from led_calls_preserve [OF sub this led_step_establish [OF mem Cons.prems(3)]]
    show ?thesis unfolding unf eq .
  qed
qed

lemma led_off_clears:
  assumes "bit led k"
  shows "\<not> bit (led_button_state
             (stratcom_set_button_led_state_without_flushing d led STRATCOM_LED_OFF)) k
       \<and> \<not> bit (led_button_state
             (stratcom_set_button_led_state_without_flushing d led STRATCOM_LED_OFF)) (Suc k)"
  using assms by (simp add: bit_set_led)


section \<open>Decoding\<close>

lemma num_masks_word:
  "(0x03 :: c_int) = mask 2" "(0x0F :: c_int) = mask 4" "(0x3F :: c_int) = mask 6"
  "(0xFC :: c_int) = push_bit 2 (mask 6)" "(0xF0 :: c_int) = push_bit 4 (mask 4)"
  "(0x3FF :: c_int) = mask 10" "(0x200 :: c_int) = 2 ^ 9"
  by (simp_all add: mask_eq_exp_minus_1)

lemma num_masks_int:
  "(0x03 :: int) = mask 2" "(0x0F :: int) = mask 4" "(0x3F :: int) = mask 6"
  "(0xFC :: int) = push_bit 2 (mask 6)" "(0xF0 :: int) = push_bit 4 (mask 4)"
  "(0x3FF :: int) = mask 10" "(0x200 :: int) = 2 ^ 9"
  by (simp_all add: mask_eq_exp_minus_1)

lemma fix_sign_value:
  fixes R :: c_int
  assumes small: "\<And>n. bit R n \<Longrightarrow> n < 10"
  shows "sint (fix_sign (ucast R)) = sign_extend_10 (uint R)"
proof -
  have rnd: "(scast (ucast R :: uint16) :: c_int) = R"
    by (rule bit_word_eqI) (auto simp add: bit_simps min_def split: if_splits dest: small)
  have c1: "(R AND 0x200 = 0) = (\<not> bit R 9)"
    using and_exp_eq_0_iff_not_bit [of R 9] by simp
  have c2: "(and (uint R) 0x200 = 0) = (\<not> bit (uint R) 9)"
    using and_exp_eq_0_iff_not_bit [of "uint R" 9] by simp
  have cond: "(R AND 0x200 \<noteq> 0) = (and (uint R) 0x200 \<noteq> 0)"
    unfolding c1 c2 by (simp add: bit_uint_iff)
  show ?thesis
  proof (cases "R AND 0x200 = 0")
    case True
    have "sint (ucast R :: uint16) = uint R"
      by (rule bit_eqI) (auto simp add: bit_simps min_def split: if_splits dest: small)
    with True cond show ?thesis by (simp add: fix_sign_def rnd sign_extend_10_def)
  next
    case False
    have neg: "- ((R XOR 0x3FF) + 1) = NOT (R XOR mask 10)"
      unfolding num_masks_word by (simp add: not_eq_complement)
    have negi: "- ((xor (uint R) 0x3FF) + 1) = not (xor (uint R) (mask 10))"
      unfolding num_masks_int by (simp add: not_int_def)
    have bits: "sint (ucast (NOT (R XOR mask 10)) :: uint16) = not (xor (uint R) (mask 10))"
      by (rule bit_eqI) (auto simp add: bit_simps min_def split: if_splits dest: small)
    have "fix_sign (ucast R) = ucast (- ((R XOR 0x3FF) + 1))"
      using False by (simp only: fix_sign_def rnd if_True simp_thms)
    then have l: "sint (fix_sign (ucast R)) = sint (ucast (NOT (R XOR mask 10)) :: uint16)"
      by (simp only: neg)
    have "sign_extend_10 (uint R) = - ((xor (uint R) 0x3FF) + 1)"
      using False cond by (simp only: sign_extend_10_def if_True simp_thms)
    then have r: "sign_extend_10 (uint R) = not (xor (uint R) (mask 10))"
      by (simp only: negi)
    show ?thesis by (simp only: l r bits)
  qed
qed


lemma word_raw_X_small: "bit (word_raw_X r) n \<Longrightarrow> n < 10"
  unfolding word_raw_X_def num_masks_word by (auto simp add: bit_simps dest: bit_imp_le_length)

lemma word_raw_Y_small: "bit (word_raw_Y r) n \<Longrightarrow> n < 10"
  unfolding word_raw_Y_def num_masks_word by (auto simp add: bit_simps)

lemma word_raw_Z_small: "bit (word_raw_Z r) n \<Longrightarrow> n < 10"
  unfolding word_raw_Z_def num_masks_word by (auto simp add: bit_simps)

lemma uint_word_raw_X: "uint (word_raw_X r) = axis_raw_X r"
  unfolding word_raw_X_def axis_raw_X_def num_masks_word num_masks_int
  by (rule bit_eqI) (auto simp add: bit_simps dest: bit_imp_le_length)

lemma uint_word_raw_Y: "uint (word_raw_Y r) = axis_raw_Y r"
  unfolding word_raw_Y_def axis_raw_Y_def num_masks_word num_masks_int
  by (rule bit_eqI) (auto simp add: bit_simps dest: bit_imp_le_length)

lemma uint_word_raw_Z: "uint (word_raw_Z r) = axis_raw_Z r"
  unfolding word_raw_Z_def axis_raw_Z_def num_masks_word num_masks_int
  by (rule bit_eqI) (auto simp add: bit_simps dest: bit_imp_le_length)

lemma evaluate_axes:
  assumes "b0 r = 0x01"
  shows "axisX (snd (evaluateInputReport r s)) = fix_sign (ucast (word_raw_X r))"
    and "axisY (snd (evaluateInputReport r s)) = fix_sign (ucast (word_raw_Y r))"
    and "axisZ (snd (evaluateInputReport r s)) = fix_sign (ucast (word_raw_Z r))"
  using assms
  by (simp_all add: evaluateInputReport_def Let_def fix_sign_def
        word_raw_X_def word_raw_Y_def word_raw_Z_def)

lemma axis_values:
  assumes "b0 r = 0x01"
  shows "sint (axisX (snd (evaluateInputReport r s))) = sign_extend_10 (axis_raw_X r)"
    and "sint (axisY (snd (evaluateInputReport r s))) = sign_extend_10 (axis_raw_Y r)"
    and "sint (axisZ (snd (evaluateInputReport r s))) = sign_extend_10 (axis_raw_Z r)"
  using fix_sign_value [of "word_raw_X r", OF word_raw_X_small]
        fix_sign_value [of "word_raw_Y r", OF word_raw_Y_small]
        fix_sign_value [of "word_raw_Z r", OF word_raw_Z_small]
  by (simp_all only: evaluate_axes [OF assms] uint_word_raw_X uint_word_raw_Y uint_word_raw_Z)

lemma sign_extend_10_examples: "sign_extend_10 0x1FF = 511" "sign_extend_10 0x200 = -512"
  by (simp_all add: sign_extend_10_def)

lemma slider_test_30:
  "((ucast (x :: uint8) :: c_int) AND 0x30 = 0x30) \<longleftrightarrow> bit x 4 \<and> bit x 5"
proof
  assume e: "(ucast x :: c_int) AND 0x30 = 0x30"
  have "bit ((ucast x :: c_int) AND 0x30) 4" "bit ((ucast x :: c_int) AND 0x30) 5"
    unfolding e by simp_all
  then show "bit x 4 \<and> bit x 5" by (simp add: bit_and_iff bit_ucast_iff)
next
  assume b: "bit x 4 \<and> bit x 5"
  have m: "(0x30 :: c_int) = push_bit 4 (mask 2)" by (simp add: mask_eq_exp_minus_1)
  have "(ucast x :: c_int) AND push_bit 4 (mask 2) = push_bit 4 (mask 2)"
  proof (rule bit_word_eqI)
    fix n assume "n < LENGTH(32)"
    have "4 \<le> n \<and> n - 4 < 2 \<longleftrightarrow> n = 4 \<or> n = 5" by arith
    then show "bit ((ucast x :: c_int) AND push_bit 4 (mask 2)) n = bit (push_bit 4 (mask 2) :: c_int) n"
      using b by (auto simp add: bit_simps)
  qed
  then show "(ucast x :: c_int) AND 0x30 = 0x30" unfolding m .
qed

lemma slider_test_20: "((ucast (x :: uint8) :: c_int) AND 0x20 \<noteq> 0) \<longleftrightarrow> bit x 5"
  using and_exp_eq_0_iff_not_bit [of "ucast x :: c_int" 5] by (simp add: bit_ucast_iff)

lemma byte_mask: "(0xff :: c_int) = mask 8"
  by (simp add: mask_eq_exp_minus_1)

lemma led_round_trip_word:
  "ucast ((ucast (ucast (ucast (m :: uint16) :: uint8) :: uint16) :: c_int)
          OR push_bit 8 (ucast (ucast (ucast (drop_bit 8 m) :: uint8) :: uint16) :: c_int)) = m"
  by (rule bit_word_eqI) (auto simp add: bit_simps)

lemma axis_negative_example:
  "sint (axisX (snd (evaluateInputReport
      \<lparr>b0 = 0x01, b1 = 0x00, b2 = 0x02, b3 = 0, b4 = 0, b5 = 0, b6 = 0\<rparr> st))) = - 512"
  using axis_values(1)
    [of "\<lparr>b0 = 0x01, b1 = 0x00, b2 = 0x02, b3 = 0, b4 = 0, b5 = 0, b6 = 0\<rparr>" st]
  by (simp add: axis_raw_X_def sign_extend_10_def)

section \<open>Claims on the codec\<close>

text \<open>
  C2. For every input report whose first byte is not 0x01 and every cached snapshot,
  \<open>evaluateInputReport\<close> answers the error result and returns the snapshot as it was;
  each of the three read functions, given a full 7-byte read of such a report, answers
  the error result and leaves the whole device record, and so every field of its cached
  input state, unchanged.
\<close>

theorem decode_rejects_wrong_report_id:
  assumes "b0 report \<noteq> 0x01"
  shows "evaluateInputReport report st = (STRATCOM_RET_ERROR, st)
       \<and> stratcom_read_input (7, report) device = (STRATCOM_RET_ERROR, device)
       \<and> stratcom_read_input_with_timeout (7, report) device = (STRATCOM_RET_ERROR, device)
       \<and> stratcom_read_input_non_blocking (7, report) device = (STRATCOM_RET_ERROR, device)"
  using assms
  by (simp add: evaluateInputReport_def stratcom_read_input_def
        stratcom_read_input_with_timeout_def stratcom_read_input_non_blocking_def)

theorem decode_rejects_wrong_report_id_witness:
  "b0 \<lparr>b0 = 0x02, b1 = 0xFF, b2 = 0x01, b3 = 0, b4 = 0, b5 = 0x04, b6 = 0x30\<rparr> \<noteq> (0x01 :: uint8)
   \<and> evaluateInputReport
         \<lparr>b0 = 0x02, b1 = 0xFF, b2 = 0x01, b3 = 0, b4 = 0, b5 = 0x04, b6 = 0x30\<rparr>
         \<lparr>buttons = 5, slider = STRATCOM_SLIDER_2, axisX = 7, axisY = 8, axisZ = 9\<rparr>
       = (STRATCOM_RET_ERROR,
          \<lparr>buttons = 5, slider = STRATCOM_SLIDER_2, axisX = 7, axisY = 8, axisZ = 9\<rparr>)"
  using decode_rejects_wrong_report_id
    [of "\<lparr>b0 = 0x02, b1 = 0xFF, b2 = 0x01, b3 = 0, b4 = 0, b5 = 0x04, b6 = 0x30\<rparr>"
        "\<lparr>buttons = 5, slider = STRATCOM_SLIDER_2, axisX = 7, axisY = 8, axisZ = 9\<rparr>"]
  by simp

text \<open>
  C3. For every 16-bit LED mask, \<open>stratcom_flush_button_led_state\<close> sends the report
  \<open>led_feature_report\<close> (a transport that accepts this report and no other makes the
  flush succeed); the report has first byte 0x01, second byte the low 8 bits and third
  byte the high 8 bits of the mask; and \<open>stratcom_read_button_led_state\<close>, reading
  these three bytes back, stores the same mask in the cache.
\<close>

theorem led_report_round_trip:
  "stratcom_flush_button_led_state
       (\<lambda>report. if report = led_feature_report d then 3 else - 1) d
     = (STRATCOM_RET_SUCCESS, d\<lparr>led_button_state_has_unflushed_changes := False\<rparr>)
   \<and> fb0 (led_feature_report d) = 0x01
   \<and> fb1 (led_feature_report d) = ucast (led_button_state d)
   \<and> fb2 (led_feature_report d) = ucast (drop_bit 8 (led_button_state d))
   \<and> stratcom_read_button_led_state (\<lambda>report_id. (3, led_feature_report d)) d'
       = (STRATCOM_RET_SUCCESS,
          d'\<lparr>led_button_state := led_button_state d,
             led_button_state_has_unflushed_changes := False\<rparr>)"
proof -
  have lo: "(ucast ((ucast (led_button_state d) :: c_int) AND 0xff) :: uint8)
              = ucast (led_button_state d)"
    unfolding byte_mask by (rule bit_word_eqI) (auto simp add: bit_simps)
  have hi: "(ucast (drop_bit 8 (ucast (led_button_state d) :: c_int) AND 0xff) :: uint8)
              = ucast (drop_bit 8 (led_button_state d))"
    unfolding byte_mask by (rule bit_word_eqI) (auto simp add: bit_simps)
  have flush: "stratcom_flush_button_led_state
       (\<lambda>report. if report = led_feature_report d then 3 else - 1) d
     = (STRATCOM_RET_SUCCESS, d\<lparr>led_button_state_has_unflushed_changes := False\<rparr>)"
    by (simp add: stratcom_flush_button_led_state_def)
  have rest: "fb0 (led_feature_report d) = 0x01
   \<and> fb1 (led_feature_report d) = ucast (led_button_state d)
   \<and> fb2 (led_feature_report d) = ucast (drop_bit 8 (led_button_state d))
   \<and> stratcom_read_button_led_state (\<lambda>report_id. (3, led_feature_report d)) d'
       = (STRATCOM_RET_SUCCESS,
          d'\<lparr>led_button_state := led_button_state d,
             led_button_state_has_unflushed_changes := False\<rparr>)"
    by (simp add: stratcom_read_button_led_state_def led_feature_report_def
          led_round_trip_word lo hi)
  from flush rest show ?thesis by (rule conjI)
qed

text \<open>
  C4. Start from any LED mask and make any sequence of calls of
  \<open>stratcom_set_button_led_state_without_flushing\<close> with selectors of the enumeration.
  For every selector that some call of the sequence named, and every on-bit \<open>k\<close> of
  that selector, the resulting mask does not have both the on-bit \<open>k\<close> and the
  blink-bit \<open>Suc k\<close> set. Setting a selector to OFF clears both bits.
\<close>

theorem led_on_and_blink_exclusive:
  assumes "fst ` set calls \<subseteq> set stratcom_button_led_values"
    and "(led, state) \<in> set calls" and "bit led k"
  shows "\<not> (bit (led_button_state (set_led_calls calls d)) k
            \<and> bit (led_button_state (set_led_calls calls d)) (Suc k))
       \<and> \<not> bit (led_button_state
                 (stratcom_set_button_led_state_without_flushing d led STRATCOM_LED_OFF)) k
       \<and> \<not> bit (led_button_state
                 (stratcom_set_button_led_state_without_flushing d led STRATCOM_LED_OFF)) (Suc k)"
  using led_calls_exclusive [OF assms, of d] led_off_clears [OF assms(3), of d] by blast

theorem led_on_and_blink_exclusive_witness:
  "fst ` set [(STRATCOM_LEDBUTTON_3, STRATCOM_LED_ON), (STRATCOM_LEDBUTTON_3, STRATCOM_LED_BLINK)]
     \<subseteq> set stratcom_button_led_values
   \<and> (STRATCOM_LEDBUTTON_3, STRATCOM_LED_BLINK)
       \<in> set [(STRATCOM_LEDBUTTON_3, STRATCOM_LED_ON), (STRATCOM_LEDBUTTON_3, STRATCOM_LED_BLINK)]
   \<and> bit STRATCOM_LEDBUTTON_3 4
   \<and> \<not> (bit (led_button_state (set_led_calls
              [(STRATCOM_LEDBUTTON_3, STRATCOM_LED_ON), (STRATCOM_LEDBUTTON_3, STRATCOM_LED_BLINK)]
              \<lparr>led_button_state = 0xFFFF, blink_state = \<lparr>on_time = 0, off_time = 0\<rparr>,
               led_button_state_has_unflushed_changes = False,
               input_state = \<lparr>buttons = 0, slider = STRATCOM_SLIDER_1,
                               axisX = 0, axisY = 0, axisZ = 0\<rparr>\<rparr>)) 4
          \<and> bit (led_button_state (set_led_calls
              [(STRATCOM_LEDBUTTON_3, STRATCOM_LED_ON), (STRATCOM_LEDBUTTON_3, STRATCOM_LED_BLINK)]
              \<lparr>led_button_state = 0xFFFF, blink_state = \<lparr>on_time = 0, off_time = 0\<rparr>,
               led_button_state_has_unflushed_changes = False,
               input_state = \<lparr>buttons = 0, slider = STRATCOM_SLIDER_1,
                               axisX = 0, axisY = 0, axisZ = 0\<rparr>\<rparr>)) (Suc 4))"
proof -
  have h1: "fst ` set [(STRATCOM_LEDBUTTON_3, STRATCOM_LED_ON),
                       (STRATCOM_LEDBUTTON_3, STRATCOM_LED_BLINK)]
              \<subseteq> set stratcom_button_led_values"
    by (simp add: stratcom_button_led_values_def)
  have h2: "(STRATCOM_LEDBUTTON_3, STRATCOM_LED_BLINK)
       \<in> set [(STRATCOM_LEDBUTTON_3, STRATCOM_LED_ON), (STRATCOM_LEDBUTTON_3, STRATCOM_LED_BLINK)]"
    by simp
  have h3: "bit STRATCOM_LEDBUTTON_3 4" by (simp add: STRATCOM_LEDBUTTON_3_def)
  show ?thesis
    using h1 h2 h3 led_on_and_blink_exclusive [OF h1 h2 h3] by blast
qed

text \<open>
  C5. For every input report with first byte 0x01, the decoded axisX, read as a signed
  value, is the raw value \<open>(byte2 & 0x03) << 8 | byte1\<close> put through the sign rule of
  the specification; likewise axisY and axisZ from their raw values. The rule sends
  0x1FF to 511 and 0x200 to -512.
\<close>

theorem axis_decoding:
  assumes "b0 report = 0x01"
  shows "sint (axisX (snd (evaluateInputReport report st))) = sign_extend_10 (axis_raw_X report)
       \<and> sint (axisY (snd (evaluateInputReport report st))) = sign_extend_10 (axis_raw_Y report)
       \<and> sint (axisZ (snd (evaluateInputReport report st))) = sign_extend_10 (axis_raw_Z report)
       \<and> sign_extend_10 0x1FF = 511 \<and> sign_extend_10 0x200 = - 512"
  using axis_values [OF assms, of st] sign_extend_10_examples by simp

theorem axis_decoding_witness:
  "b0 \<lparr>b0 = 0x01, b1 = 0xFF, b2 = 0x01, b3 = 0x20, b4 = 0, b5 = 0, b6 = 0\<rparr> = (0x01 :: uint8)
   \<and> axis_raw_X \<lparr>b0 = 0x01, b1 = 0xFF, b2 = 0x01, b3 = 0x20, b4 = 0, b5 = 0, b6 = 0\<rparr> = 0x1FF
   \<and> sint (axisX (snd (evaluateInputReport
         \<lparr>b0 = 0x01, b1 = 0xFF, b2 = 0x01, b3 = 0x20, b4 = 0, b5 = 0, b6 = 0\<rparr>
         \<lparr>buttons = 0, slider = STRATCOM_SLIDER_1, axisX = 0, axisY = 0, axisZ = 0\<rparr>))) = 511"
  using axis_decoding
    [of "\<lparr>b0 = 0x01, b1 = 0xFF, b2 = 0x01, b3 = 0x20, b4 = 0, b5 = 0, b6 = 0\<rparr>"
        "\<lparr>buttons = 0, slider = STRATCOM_SLIDER_1, axisX = 0, axisY = 0, axisZ = 0\<rparr>"]
  by (simp add: axis_raw_X_def sign_extend_10_def)

text \<open>
  C6. For every input report with first byte 0x01, the decoded slider is Slider1 when
  bits 4 and 5 of byte 6 (the two bits of 0x30) are both set, whatever the other bits of
  byte 6 are; otherwise Slider2 when bit 5 (0x20) is set; otherwise Slider3.
\<close>

theorem slider_decoding:
  assumes "b0 report = 0x01"
  shows "slider (snd (evaluateInputReport report st)) =
           (if bit (b6 report) 4 \<and> bit (b6 report) 5 then STRATCOM_SLIDER_1
            else if bit (b6 report) 5 then STRATCOM_SLIDER_2
            else STRATCOM_SLIDER_3)"
  using assms by (simp add: evaluateInputReport_def Let_def slider_test_30 slider_test_20)

theorem slider_decoding_witness:
  "b0 \<lparr>b0 = 0x01, b1 = 0, b2 = 0, b3 = 0, b4 = 0, b5 = 0, b6 = 0x3A\<rparr> = (0x01 :: uint8)
   \<and> slider (snd (evaluateInputReport
         \<lparr>b0 = 0x01, b1 = 0, b2 = 0, b3 = 0, b4 = 0, b5 = 0, b6 = 0x3A\<rparr>
         \<lparr>buttons = 0, slider = STRATCOM_SLIDER_3, axisX = 0, axisY = 0, axisZ = 0\<rparr>))
       = STRATCOM_SLIDER_1"
  using slider_decoding
    [of "\<lparr>b0 = 0x01, b1 = 0, b2 = 0, b3 = 0, b4 = 0, b5 = 0, b6 = 0x3A\<rparr>"
        "\<lparr>buttons = 0, slider = STRATCOM_SLIDER_3, axisX = 0, axisY = 0, axisZ = 0\<rparr>"]
  by simp

section \<open>The button range\<close>

lemmas button_enumerators =
  STRATCOM_BUTTON_1_def STRATCOM_BUTTON_2_def STRATCOM_BUTTON_3_def STRATCOM_BUTTON_4_def
  STRATCOM_BUTTON_5_def STRATCOM_BUTTON_6_def STRATCOM_BUTTON_PLUS_def
  STRATCOM_BUTTON_MINUS_def STRATCOM_BUTTON_SHIFT1_def STRATCOM_BUTTON_SHIFT2_def
  STRATCOM_BUTTON_SHIFT3_def STRATCOM_BUTTON_REC_def STRATCOM_BUTTON_NONE_def

lemma increment_enumerators:
  "stratcom_iterate_buttons_range_increment STRATCOM_BUTTON_1 = STRATCOM_BUTTON_2"
  "stratcom_iterate_buttons_range_increment STRATCOM_BUTTON_2 = STRATCOM_BUTTON_3"
  "stratcom_iterate_buttons_range_increment STRATCOM_BUTTON_3 = STRATCOM_BUTTON_4"
  "stratcom_iterate_buttons_range_increment STRATCOM_BUTTON_4 = STRATCOM_BUTTON_5"
  "stratcom_iterate_buttons_range_increment STRATCOM_BUTTON_5 = STRATCOM_BUTTON_6"
  "stratcom_iterate_buttons_range_increment STRATCOM_BUTTON_6 = STRATCOM_BUTTON_PLUS"
  "stratcom_iterate_buttons_range_increment STRATCOM_BUTTON_PLUS = STRATCOM_BUTTON_MINUS"
  "stratcom_iterate_buttons_range_increment STRATCOM_BUTTON_MINUS = STRATCOM_BUTTON_SHIFT1"
  "stratcom_iterate_buttons_range_increment STRATCOM_BUTTON_SHIFT1 = STRATCOM_BUTTON_SHIFT2"
  "stratcom_iterate_buttons_range_increment STRATCOM_BUTTON_SHIFT2 = STRATCOM_BUTTON_SHIFT3"
  "stratcom_iterate_buttons_range_increment STRATCOM_BUTTON_SHIFT3 = STRATCOM_BUTTON_REC"
  "stratcom_iterate_buttons_range_increment STRATCOM_BUTTON_REC = STRATCOM_BUTTON_NONE"
  "stratcom_iterate_buttons_range_increment STRATCOM_BUTTON_NONE = STRATCOM_BUTTON_NONE"
  by (simp_all add: stratcom_iterate_buttons_range_increment_def button_enumerators)

lemma enumerators_not_none:
  "STRATCOM_BUTTON_1 \<noteq> STRATCOM_BUTTON_NONE" "STRATCOM_BUTTON_2 \<noteq> STRATCOM_BUTTON_NONE"
  "STRATCOM_BUTTON_3 \<noteq> STRATCOM_BUTTON_NONE" "STRATCOM_BUTTON_4 \<noteq> STRATCOM_BUTTON_NONE"
  "STRATCOM_BUTTON_5 \<noteq> STRATCOM_BUTTON_NONE" "STRATCOM_BUTTON_6 \<noteq> STRATCOM_BUTTON_NONE"
  "STRATCOM_BUTTON_PLUS \<noteq> STRATCOM_BUTTON_NONE" "STRATCOM_BUTTON_MINUS \<noteq> STRATCOM_BUTTON_NONE"
  "STRATCOM_BUTTON_SHIFT1 \<noteq> STRATCOM_BUTTON_NONE"
  "STRATCOM_BUTTON_SHIFT2 \<noteq> STRATCOM_BUTTON_NONE"
  "STRATCOM_BUTTON_SHIFT3 \<noteq> STRATCOM_BUTTON_NONE" "STRATCOM_BUTTON_REC \<noteq> STRATCOM_BUTTON_NONE"
  by (simp_all add: button_enumerators)

lemma increment_outside:
  assumes "b \<notin> set canonical_buttons"
  shows "stratcom_iterate_buttons_range_increment b = STRATCOM_BUTTON_NONE"
  using assms by (simp add: canonical_buttons_def stratcom_iterate_buttons_range_increment_def)

lemma buttons_visited_end: "buttons_visited STRATCOM_BUTTON_NONE = []"
  by (subst buttons_visited.simps) (simp add: stratcom_iterate_buttons_range_end_def)

lemma buttons_visited_step:
  assumes "b \<noteq> STRATCOM_BUTTON_NONE"
  shows "buttons_visited b = b # buttons_visited (stratcom_iterate_buttons_range_increment b)"
  using assms
  by (subst buttons_visited.simps) (simp add: stratcom_iterate_buttons_range_end_def)

lemma buttons_visited_enumerators:
  "buttons_visited STRATCOM_BUTTON_REC = [STRATCOM_BUTTON_REC]"
  "buttons_visited STRATCOM_BUTTON_SHIFT3 = STRATCOM_BUTTON_SHIFT3 # buttons_visited STRATCOM_BUTTON_REC"
  "buttons_visited STRATCOM_BUTTON_SHIFT2 = STRATCOM_BUTTON_SHIFT2 # buttons_visited STRATCOM_BUTTON_SHIFT3"
  "buttons_visited STRATCOM_BUTTON_SHIFT1 = STRATCOM_BUTTON_SHIFT1 # buttons_visited STRATCOM_BUTTON_SHIFT2"
  "buttons_visited STRATCOM_BUTTON_MINUS = STRATCOM_BUTTON_MINUS # buttons_visited STRATCOM_BUTTON_SHIFT1"
  "buttons_visited STRATCOM_BUTTON_PLUS = STRATCOM_BUTTON_PLUS # buttons_visited STRATCOM_BUTTON_MINUS"
  "buttons_visited STRATCOM_BUTTON_6 = STRATCOM_BUTTON_6 # buttons_visited STRATCOM_BUTTON_PLUS"
  "buttons_visited STRATCOM_BUTTON_5 = STRATCOM_BUTTON_5 # buttons_visited STRATCOM_BUTTON_6"
  "buttons_visited STRATCOM_BUTTON_4 = STRATCOM_BUTTON_4 # buttons_visited STRATCOM_BUTTON_5"
  "buttons_visited STRATCOM_BUTTON_3 = STRATCOM_BUTTON_3 # buttons_visited STRATCOM_BUTTON_4"
  "buttons_visited STRATCOM_BUTTON_2 = STRATCOM_BUTTON_2 # buttons_visited STRATCOM_BUTTON_3"
  "buttons_visited STRATCOM_BUTTON_1 = STRATCOM_BUTTON_1 # buttons_visited STRATCOM_BUTTON_2"
  by (simp_all add: buttons_visited_step enumerators_not_none increment_enumerators
        buttons_visited_end)

lemma buttons_visited_begin:
  "buttons_visited stratcom_iterate_buttons_range_begin = canonical_buttons"
  by (simp add: stratcom_iterate_buttons_range_begin_def canonical_buttons_def
        buttons_visited_enumerators)

lemma buttons_visited_bound: "length (buttons_visited b) \<le> 12"
proof (cases "b \<in> set canonical_buttons")
  case True
  then show ?thesis
    by (auto simp add: canonical_buttons_def buttons_visited_enumerators)
next
  case False
  show ?thesis
  proof (cases "b = STRATCOM_BUTTON_NONE")
    case True
    then show ?thesis by (simp add: buttons_visited_end)
  next
    case nn: False
    show ?thesis
      by (simp add: buttons_visited_step [OF nn] increment_outside [OF False]
            buttons_visited_end)
  qed
qed

text \<open>
  C10. From \<open>stratcom_iterate_buttons_range_begin\<close>, which is button 1, the loop over
  the range visits exactly the twelve buttons in canonical order; the twelfth increment
  gives \<open>stratcom_iterate_buttons_range_end\<close>, which is NONE; a value outside the
  twelve is sent to NONE; and the loop ends from every start value, after at most
  twelve rounds.
\<close>

theorem button_range_iteration:
  "stratcom_iterate_buttons_range_begin = STRATCOM_BUTTON_1
   \<and> stratcom_iterate_buttons_range_end = STRATCOM_BUTTON_NONE
   \<and> buttons_visited stratcom_iterate_buttons_range_begin = canonical_buttons
   \<and> length canonical_buttons = 12
   \<and> (stratcom_iterate_buttons_range_increment ^^ 12) stratcom_iterate_buttons_range_begin
       = stratcom_iterate_buttons_range_end
   \<and> (\<forall>b. b \<notin> set canonical_buttons \<longrightarrow>
            stratcom_iterate_buttons_range_increment b = STRATCOM_BUTTON_NONE)
   \<and> (\<forall>b. length (buttons_visited b) \<le> 12)"
proof -
  have "(stratcom_iterate_buttons_range_increment ^^ 12) STRATCOM_BUTTON_1 = STRATCOM_BUTTON_NONE"
    by (simp add: eval_nat_numeral funpow_swap1 increment_enumerators)
  then show ?thesis
    using buttons_visited_begin increment_outside buttons_visited_bound
    by (simp add: stratcom_iterate_buttons_range_begin_def stratcom_iterate_buttons_range_end_def
          canonical_buttons_def)
qed

theorem button_range_iteration_witness:
  "(0x1000 :: stratcom_button) \<notin> set canonical_buttons
   \<and> stratcom_iterate_buttons_range_increment 0x1000 = STRATCOM_BUTTON_NONE
   \<and> buttons_visited 0x1000 = [0x1000]"
proof -
  have out: "(0x1000 :: stratcom_button) \<notin> set canonical_buttons"
    by (simp add: canonical_buttons_def button_enumerators)
  have inc: "stratcom_iterate_buttons_range_increment 0x1000 = STRATCOM_BUTTON_NONE"
    using button_range_iteration out by blast
  have "(0x1000 :: stratcom_button) \<noteq> STRATCOM_BUTTON_NONE"
    by (simp add: STRATCOM_BUTTON_NONE_def)
  then have "buttons_visited 0x1000 = [0x1000]"
    by (simp add: buttons_visited_step inc buttons_visited_end)
  with out inc show ?thesis by simp
qed

section \<open>The event list\<close>

lemma then_stmt_skip [simp]: "then_stmt (\<lambda>s. (Inr (), s)) g = g"
  by (rule ext) (simp add: then_stmt_def)

lemma then_stmt_assoc: "then_stmt (then_stmt f g) k = then_stmt f (then_stmt g k)"
  by (rule ext) (simp add: then_stmt_def split: prod.splits sum.splits)

lemma add_events_append:
  "add_events (xs @ ys) = then_stmt (add_events xs) (add_events ys)"
proof (induction xs)
  case Nil
  have "add_events [] = (\<lambda>s. (Inr (), s))" by (rule ext) simp
  then show ?case by simp
next
  case (Cons x xs)
  have "add_events ((x # xs) @ ys) = then_stmt (add_event x) (add_events (xs @ ys))"
    by (rule ext) simp
  also have "\<dots> = then_stmt (add_event x) (then_stmt (add_events xs) (add_events ys))"
    by (simp only: Cons.IH)
  also have "\<dots> = then_stmt (then_stmt (add_event x) (add_events xs)) (add_events ys)"
    by (simp only: then_stmt_assoc)
  also have "then_stmt (add_event x) (add_events xs) = add_events (x # xs)"
    by (rule ext) simp
  finally show ?case .
qed

lemma add_events_single: "add_events [d] = add_event d"
  by (rule ext) (simp add: then_stmt_def split: prod.splits sum.splits)

lemma slider_stmt:
  "(\<lambda>s. if slider old_state \<noteq> slider new_state
         then add_event (STRATCOM_INPUT_EVENT_SLIDER (slider new_state)) s
         else (Inr (), s)) = add_events (slider_change old_state new_state)"
  by (rule ext) (simp add: slider_change_def add_events_single)

lemma axis_stmt:
  "evaluate_axis_states old_val new_val axis = add_events (axis_change old_val new_val axis)"
  by (rule ext) (simp add: evaluate_axis_states_def axis_change_def add_events_single)

lemma and_single_bit:
  fixes x :: c_int
  shows "x AND 2 ^ n = (if bit x n then 2 ^ n else 0)"
  by (rule bit_word_eqI) (auto simp add: bit_simps)

lemma changed_iff_pressed:
  fixes x y :: c_int
  assumes "n < 32"
  shows "(x AND 2 ^ n \<noteq> y AND 2 ^ n) \<longleftrightarrow> ((x AND 2 ^ n \<noteq> 0) \<noteq> (y AND 2 ^ n \<noteq> 0))"
  using assms by (simp add: and_single_bit)

lemma canonical_single_bits: "canonical_buttons = map (\<lambda>n. 2 ^ n) [0..<12]"
  by (simp add: canonical_buttons_def button_enumerators upt_rec)

lemma button_stmt:
  assumes "b \<in> set canonical_buttons"
  shows "button_body old_state new_state b = add_events (button_change old_state new_state b)"
proof -
  obtain n where n: "n < 12" "b = 2 ^ n"
    using assms unfolding canonical_single_bits by auto
  have "n < 32" using n by simp
  from changed_iff_pressed [OF this] show ?thesis
    by (intro ext) (simp add: button_body_def button_change_def pressed_def n add_events_single)
qed

lemma button_loop_visits:
  "button_loop old_state new_state b =
     foldr then_stmt (map (button_body old_state new_state) (buttons_visited b))
       (\<lambda>s. (Inr (), s))"
proof (induction b rule: buttons_visited.induct)
  case (1 b)
  show ?case
  proof (cases "b = stratcom_iterate_buttons_range_end")
    case True
    have "button_loop old_state new_state b = (\<lambda>s. (Inr (), s))"
      by (rule ext, subst button_loop.simps) (simp add: True)
    moreover have "buttons_visited b = []"
      by (subst buttons_visited.simps) (simp add: True)
    ultimately show ?thesis by simp
  next
    case False
    have "button_loop old_state new_state b =
            then_stmt (button_body old_state new_state b)
              (button_loop old_state new_state (stratcom_iterate_buttons_range_increment b))"
      by (rule ext, subst button_loop.simps) (simp add: False then_stmt_def)
    moreover have "buttons_visited b =
            b # buttons_visited (stratcom_iterate_buttons_range_increment b)"
      by (subst buttons_visited.simps) (simp add: False)
    ultimately show ?thesis using "1.IH" [OF False] by simp
  qed
qed

lemma foldr_then_stmt_add_events:
  assumes "\<And>b. b \<in> set bs \<Longrightarrow> body b = add_events (f b)"
  shows "foldr then_stmt (map body bs) (\<lambda>s. (Inr (), s)) = add_events (concat (map f bs))"
  using assms
proof (induction bs)
  case Nil
  show ?case by (rule ext) simp
next
  case (Cons b bs)
  have "foldr then_stmt (map body (b # bs)) (\<lambda>s. (Inr (), s))
          = then_stmt (add_events (f b)) (add_events (concat (map f bs)))"
    using Cons by simp
  then show ?case by (simp add: add_events_append)
qed

lemma button_loop_begin:
  "button_loop old_state new_state stratcom_iterate_buttons_range_begin
     = add_events (concat (map (button_change old_state new_state) canonical_buttons))"
  unfolding button_loop_visits buttons_visited_begin
  by (rule foldr_then_stmt_add_events) (rule button_stmt)

lemma buttons_stmt:
  "(\<lambda>s. if buttons old_state \<noteq> buttons new_state
         then button_loop old_state new_state stratcom_iterate_buttons_range_begin s
         else (Inr (), s))
     = add_events (concat (map (button_change old_state new_state) canonical_buttons))"
proof (cases "buttons old_state = buttons new_state")
  case True
  then have "\<And>b. button_change old_state new_state b = []"
    by (simp add: button_change_def pressed_def)
  then have e: "concat (map (button_change old_state new_state) canonical_buttons) = []"
    by simp
  show ?thesis unfolding e using True by (intro ext) simp
next
  case False
  then show ?thesis by (simp add: button_loop_begin)
qed

lemma events_try_block_eq:
  "events_try_block old_state new_state = add_events (diff_events old_state new_state)"
  unfolding events_try_block_def diff_events_def slider_stmt axis_stmt buttons_stmt
    add_events_append ..

text \<open>The effect of adding a run of events, whether memory suffices or not.\<close>

lemma add_events_run:
  "add_events ds (ret, h) =
     (if length ds \<le> budget h then Inr () else Inl bad_alloc,
      chain_head ret (length (cells h)) (take (budget h) ds),
      h\<lparr>cells := cells h @ chain ret (length (cells h)) (take (budget h) ds),
        budget := budget h - length ds\<rparr>)"
proof (induction ds arbitrary: ret h)
  case Nil
  show ?case by simp
next
  case (Cons d ds)
  show ?case
  proof (cases "budget h")
    case 0
    then show ?thesis by (simp add: then_stmt_def add_event_def)
  next
    case (Suc n)
    then show ?thesis
      by (simp add: then_stmt_def add_event_def Cons.IH)
  qed
qed

subsection \<open>The cells of a run of events\<close>

lemma length_chain [simp]: "length (chain ret base ds) = length ds"
  by (induction ds arbitrary: ret base) simp_all

lemma chain_snoc:
  "chain ret base (ds @ [d])
     = chain ret base ds @ [Some \<lparr>desc = d, next_ptr = chain_head ret base ds\<rparr>]"
  by (induction ds arbitrary: ret base) simp_all

lemma chain_head_snoc [simp]: "chain_head ret base (ds @ [d]) = Some (base + length ds)"
  by (induction ds arbitrary: ret base) simp_all

lemma chain_head_None_iff: "chain_head None base ds = None \<longleftrightarrow> ds = []"
  by (cases ds rule: rev_cases) simp_all

lemma lookup_append_old: "a < length c \<Longrightarrow> lookup (c @ e) a = lookup c a"
  by (simp add: lookup_def nth_append)

lemma lookup_Some_less: "lookup c a = Some node \<Longrightarrow> a < length c"
  by (simp add: lookup_def split: if_splits)

lemma lookup_append_replicate_None: "lookup (c @ replicate k None) a = lookup c a"
  by (simp add: lookup_def nth_append)

lemma list_at_append: "list_at c p xs \<Longrightarrow> list_at (c @ e) p xs"
proof (induction xs arbitrary: p)
  case Nil
  then show ?case by simp
next
  case (Cons x xs)
  obtain a d where x: "x = (a, d)" by (cases x)
  from Cons.prems obtain node where
    n: "p = Some a" "lookup c a = Some node" "desc node = d" "list_at c (next_ptr node) xs"
    by (auto simp add: x split: option.splits)
  have "lookup (c @ e) a = Some node"
    using n(2) lookup_Some_less [OF n(2)] by (simp add: lookup_append_old)
  with n Cons.IH [OF n(4)] show ?case by (simp add: x)
qed

lemma list_at_chain:
  assumes "list_at c ret xs"
  shows "list_at (c @ chain ret (length c) ds) (chain_head ret (length c) ds)
           (rev (zip [length c..<length c + length ds] ds) @ xs)"
proof (induction ds rule: rev_induct)
  case Nil
  from assms show ?case by simp
next
  case (snoc d ds)
  let ?node = "\<lparr>desc = d, next_ptr = chain_head ret (length c) ds\<rparr>"
  let ?c' = "c @ chain ret (length c) ds @ [Some ?node]"
  have z: "zip [length c..<length c + length (ds @ [d])] (ds @ [d])
             = zip [length c..<length c + length ds] ds @ [(length c + length ds, d)]"
    by simp
  have l: "lookup ?c' (length c + length ds) = Some ?node"
    by (simp add: lookup_def nth_append)
  have "list_at ((c @ chain ret (length c) ds) @ [Some ?node]) (chain_head ret (length c) ds)
          (rev (zip [length c..<length c + length ds] ds) @ xs)"
    using snoc.IH by (rule list_at_append)
  then have "list_at ?c' (chain_head ret (length c) ds)
          (rev (zip [length c..<length c + length ds] ds) @ xs)"
    by simp
  then show ?case
    unfolding z by (simp add: chain_snoc l)
qed

lemma read_events_list_at:
  assumes "list_at c p xs" "length xs \<le> n"
  shows "read_events n c p = Some (map snd xs)"
  using assms
proof (induction xs arbitrary: p n)
  case Nil
  then show ?case by simp
next
  case (Cons x xs)
  obtain a d where x: "x = (a, d)" by (cases x)
  from Cons.prems(1) obtain node where
    n: "p = Some a" "lookup c a = Some node" "desc node = d" "list_at c (next_ptr node) xs"
    by (auto simp add: x split: option.splits)
  from Cons.prems(2) obtain m where m: "n = Suc m" "length xs \<le> m"
    by (cases n) simp_all
  from Cons.IH [OF n(4) m(2)] show ?case by (simp add: n m x)
qed

subsection \<open>Releasing a run of events\<close>

lemma free_chain:
  assumes "cells h = c @ chain None (length c) ds @ zs"
  shows "stratcom_free_input_events (chain_head None (length c) ds) h
           = Inr (h\<lparr>cells := c @ replicate (length ds) None @ zs\<rparr>)"
  using assms
proof (induction ds arbitrary: zs h rule: rev_induct)
  case Nil
  then show ?case by (subst stratcom_free_input_events.simps) simp
next
  case (snoc d ds)
  let ?node = "\<lparr>desc = d, next_ptr = chain_head None (length c) ds\<rparr>"
  let ?cs = "c @ chain None (length c) ds @ Some ?node # zs"
  let ?h1 = "h\<lparr>cells := (cells h)[length c + length ds := None]\<rparr>"
  have cells: "cells h = ?cs"
    using snoc.prems by (simp add: chain_snoc)
  have l: "lookup (cells h) (length c + length ds) = Some ?node"
    unfolding cells by (simp add: lookup_def nth_append)
  have u: "cells ?h1 = c @ chain None (length c) ds @ None # zs"
    unfolding cells by (simp add: list_update_append)
  have "stratcom_free_input_events (chain_head None (length c) (ds @ [d])) h
        = stratcom_free_input_events (chain_head None (length c) ds) ?h1"
    by (subst stratcom_free_input_events.simps) (simp add: l)
  also have "\<dots> = Inr (?h1\<lparr>cells := c @ replicate (length ds) None @ None # zs\<rparr>)"
    using u by (rule snoc.IH)
  also have "\<dots> = Inr (h\<lparr>cells := c @ replicate (length (ds @ [d])) None @ zs\<rparr>)"
    by (simp add: replicate_app_Cons_same)
  finally show ?case .
qed

subsection \<open>The result of the event diff\<close>

lemma create_result:
  "stratcom_create_input_events_from_states old_state new_state h =
     Inr (if length (diff_events old_state new_state) \<le> budget h
          then (chain_head None (length (cells h)) (diff_events old_state new_state),
                h\<lparr>cells := cells h
                            @ chain None (length (cells h)) (diff_events old_state new_state),
                  budget := budget h - length (diff_events old_state new_state)\<rparr>)
          else (None, h\<lparr>cells := cells h @ replicate (budget h) None, budget := 0\<rparr>))"
proof (cases "length (diff_events old_state new_state) \<le> budget h")
  case True
  then show ?thesis
    by (simp add: stratcom_create_input_events_from_states_def events_try_block_eq
          add_events_run)
next
  case False
  let ?ds = "take (budget h) (diff_events old_state new_state)"
  have len: "length ?ds = budget h" using False by simp
  have run: "events_try_block old_state new_state (None, h)
      = (Inl bad_alloc, chain_head None (length (cells h)) ?ds,
         h\<lparr>cells := cells h @ chain None (length (cells h)) ?ds, budget := 0\<rparr>)"
    using False by (simp add: events_try_block_eq add_events_run)
  show ?thesis
  proof (cases "budget h")
    case 0
    then show ?thesis
      using False by (simp add: stratcom_create_input_events_from_states_def run)
  next
    case (Suc n)
    then have "?ds \<noteq> []" using len by auto
    then obtain p where p: "chain_head None (length (cells h)) ?ds = Some p"
      using chain_head_None_iff [of "length (cells h)" ?ds] by auto
    let ?h' = "h\<lparr>cells := cells h @ chain None (length (cells h)) ?ds, budget := 0\<rparr>"
    have "cells ?h' = cells h @ chain None (length (cells h)) ?ds @ []" by simp
    then have "stratcom_free_input_events (chain_head None (length (cells h)) ?ds) ?h'
          = Inr (?h'\<lparr>cells := cells h @ replicate (length ?ds) None @ []\<rparr>)"
      by (rule free_chain)
    then have "stratcom_free_input_events (Some p) ?h'
          = Inr (h\<lparr>cells := cells h @ replicate (budget h) None, budget := 0\<rparr>)"
      unfolding p len by simp
    then show ?thesis
      using False by (simp add: stratcom_create_input_events_from_states_def run p)
  qed
qed

lemma created_events_enough_memory:
  assumes "length (diff_events old_state new_state) \<le> budget h"
  shows "created_events old_state new_state h = Inr (Some (rev (diff_events old_state new_state)))"
proof -
  let ?ds = "diff_events old_state new_state"
  let ?c' = "cells h @ chain None (length (cells h)) ?ds"
  let ?xs = "rev (zip [length (cells h)..<length (cells h) + length ?ds] ?ds)"
  have "list_at (cells h) None []" by simp
  from list_at_chain [OF this, of ?ds]
  have "list_at ?c' (chain_head None (length (cells h)) ?ds) ?xs" by simp
  moreover have "length ?xs \<le> length ?c'" by simp
  ultimately have "read_events (length ?c') ?c' (chain_head None (length (cells h)) ?ds)
                     = Some (map snd ?xs)"
    by (rule read_events_list_at)
  moreover have "map snd ?xs = rev ?ds" by (simp add: rev_map [symmetric])
  ultimately show ?thesis
    using assms by (simp add: created_events_def create_result events_of_def)
qed

lemma created_events_out_of_memory:
  assumes "budget h < length (diff_events old_state new_state)"
  shows "created_events old_state new_state h = Inr (Some [])"
  using assms by (simp add: created_events_def create_result events_of_def)

lemma rev_slider_change [simp]: "rev (slider_change a b) = slider_change a b"
  by (simp add: slider_change_def)

lemma rev_axis_change [simp]: "rev (axis_change a b x) = axis_change a b x"
  by (simp add: axis_change_def)

lemma rev_button_changes:
  "rev (concat (map (button_change a b) bs)) = concat (map (button_change a b) (rev bs))"
  by (induction bs) (simp_all add: button_change_def)

lemma rev_diff_events:
  "rev (diff_events old_state new_state) =
     concat (map (button_change old_state new_state) (rev canonical_buttons))
     @ axis_change (axisZ old_state) (axisZ new_state) STRATCOM_AXIS_Z
     @ axis_change (axisY old_state) (axisY new_state) STRATCOM_AXIS_Y
     @ axis_change (axisX old_state) (axisX new_state) STRATCOM_AXIS_X
     @ slider_change old_state new_state"
  by (simp add: diff_events_def rev_button_changes)

text \<open>
  C1, as amended. The events are created in the order slider, axisX, axisY, axisZ,
  buttons in canonical order, and each new node is put in front of the list. When no
  allocation fails, the list returned therefore holds them in the opposite order: the
  button events from rec down to button 1, then axisZ, axisY, axisX, and the slider
  event last.
\<close>

theorem created_events_order:
  assumes "length (diff_events old_state new_state) \<le> budget h"
  shows "created_events old_state new_state h =
           Inr (Some (concat (map (button_change old_state new_state) (rev canonical_buttons))
                      @ axis_change (axisZ old_state) (axisZ new_state) STRATCOM_AXIS_Z
                      @ axis_change (axisY old_state) (axisY new_state) STRATCOM_AXIS_Y
                      @ axis_change (axisX old_state) (axisX new_state) STRATCOM_AXIS_X
                      @ slider_change old_state new_state))"
  using created_events_enough_memory [OF assms] by (simp only: rev_diff_events)

lemma no_button_changes:
  "concat (map (button_change
      \<lparr>buttons = 0, slider = s, axisX = x, axisY = y, axisZ = z\<rparr>
      \<lparr>buttons = 0, slider = s', axisX = x', axisY = y', axisZ = z'\<rparr>) bs) = []"
  by (simp add: button_change_def pressed_def)

lemma slider_and_axis_example:
  "diff_events
     \<lparr>buttons = 0, slider = STRATCOM_SLIDER_1, axisX = 0, axisY = 0, axisZ = 0\<rparr>
     \<lparr>buttons = 0, slider = STRATCOM_SLIDER_2, axisX = 1, axisY = 0, axisZ = 0\<rparr>
   = [STRATCOM_INPUT_EVENT_SLIDER STRATCOM_SLIDER_2,
      STRATCOM_INPUT_EVENT_AXIS STRATCOM_AXIS_X 1]"
  by (simp add: diff_events_def slider_change_def axis_change_def no_button_changes)

theorem created_events_order_witness:
  "length (diff_events
     \<lparr>buttons = 0, slider = STRATCOM_SLIDER_1, axisX = 0, axisY = 0, axisZ = 0\<rparr>
     \<lparr>buttons = 0, slider = STRATCOM_SLIDER_2, axisX = 1, axisY = 0, axisZ = 0\<rparr>)
     \<le> budget \<lparr>cells = [], budget = 2\<rparr>
   \<and> created_events
       \<lparr>buttons = 0, slider = STRATCOM_SLIDER_1, axisX = 0, axisY = 0, axisZ = 0\<rparr>
       \<lparr>buttons = 0, slider = STRATCOM_SLIDER_2, axisX = 1, axisY = 0, axisZ = 0\<rparr>
       \<lparr>cells = [], budget = 2\<rparr>
     = Inr (Some [STRATCOM_INPUT_EVENT_AXIS STRATCOM_AXIS_X 1,
                  STRATCOM_INPUT_EVENT_SLIDER STRATCOM_SLIDER_2])"
proof -
  have h: "length (diff_events
     \<lparr>buttons = 0, slider = STRATCOM_SLIDER_1, axisX = 0, axisY = 0, axisZ = 0\<rparr>
     \<lparr>buttons = 0, slider = STRATCOM_SLIDER_2, axisX = 1, axisY = 0, axisZ = 0\<rparr>)
     \<le> budget \<lparr>cells = [], budget = 2\<rparr>"
    by (simp add: slider_and_axis_example)
  from created_events_order [OF h] h show ?thesis
    by (simp add: slider_change_def axis_change_def no_button_changes)
qed

text \<open>
  The claim C1 as it is written fails: with the slider and axisX changed and memory for
  both events, the list returned starts with the axis event, and the slider event is
  last, while the order of the claim is slider first.
\<close>

theorem created_events_order_counterexample:
  "created_events
       \<lparr>buttons = 0, slider = STRATCOM_SLIDER_1, axisX = 0, axisY = 0, axisZ = 0\<rparr>
       \<lparr>buttons = 0, slider = STRATCOM_SLIDER_2, axisX = 1, axisY = 0, axisZ = 0\<rparr>
       \<lparr>cells = [], budget = 2\<rparr>
     = Inr (Some [STRATCOM_INPUT_EVENT_AXIS STRATCOM_AXIS_X 1,
                  STRATCOM_INPUT_EVENT_SLIDER STRATCOM_SLIDER_2])
   \<and> created_events
       \<lparr>buttons = 0, slider = STRATCOM_SLIDER_1, axisX = 0, axisY = 0, axisZ = 0\<rparr>
       \<lparr>buttons = 0, slider = STRATCOM_SLIDER_2, axisX = 1, axisY = 0, axisZ = 0\<rparr>
       \<lparr>cells = [], budget = 2\<rparr>
     \<noteq> Inr (Some (diff_events
       \<lparr>buttons = 0, slider = STRATCOM_SLIDER_1, axisX = 0, axisY = 0, axisZ = 0\<rparr>
       \<lparr>buttons = 0, slider = STRATCOM_SLIDER_2, axisX = 1, axisY = 0, axisZ = 0\<rparr>))
   \<and> stratcom_create_input_events_from_states
       \<lparr>buttons = 0, slider = STRATCOM_SLIDER_1, axisX = 0, axisY = 0, axisZ = 0\<rparr>
       \<lparr>buttons = 0, slider = STRATCOM_SLIDER_2, axisX = 1, axisY = 0, axisZ = 0\<rparr>
       \<lparr>cells = [], budget = 2\<rparr>
     = Inr (Some 1,
            \<lparr>cells = [Some \<lparr>desc = STRATCOM_INPUT_EVENT_SLIDER STRATCOM_SLIDER_2,
                              next_ptr = None\<rparr>,
                        Some \<lparr>desc = STRATCOM_INPUT_EVENT_AXIS STRATCOM_AXIS_X 1,
                              next_ptr = Some 0\<rparr>],
              budget = 0\<rparr>)"
proof -
  have h: "length (diff_events
     \<lparr>buttons = 0, slider = STRATCOM_SLIDER_1, axisX = 0, axisY = 0, axisZ = 0\<rparr>
     \<lparr>buttons = 0, slider = STRATCOM_SLIDER_2, axisX = 1, axisY = 0, axisZ = 0\<rparr>)
     \<le> budget \<lparr>cells = [], budget = 2\<rparr>"
    by (simp add: slider_and_axis_example)
  from created_events_enough_memory [OF h] show ?thesis
    by (simp add: slider_and_axis_example create_result)
qed

subsection \<open>Counting the events of a diff\<close>

lemma pressed_single_bit:
  assumes "n < 16"
  shows "pressed st (2 ^ n) \<longleftrightarrow> bit (buttons st) n"
  using assms by (simp add: pressed_def and_single_bit bit_ucast_iff)

lemma distinct_canonical_buttons: "distinct canonical_buttons"
  by (simp add: canonical_buttons_def button_enumerators)

lemma filter_button_change:
  "filter (is_button_event b) (button_change old_state new_state b') =
     (if b' = b then button_change old_state new_state b else [])"
  by (simp add: button_change_def)

lemma filter_button_changes:
  assumes "distinct bs"
  shows "filter (is_button_event b) (concat (map (button_change old_state new_state) bs)) =
           (if b \<in> set bs then button_change old_state new_state b else [])"
  using assms
proof (induction bs)
  case Nil
  show ?case by simp
next
  case (Cons b' bs)
  then show ?case by (auto simp add: filter_button_change)
qed

lemma filter_other_button_changes [simp]:
  "filter is_slider_event (concat (map (button_change old_state new_state) bs)) = []"
  "filter (is_axis_event a) (concat (map (button_change old_state new_state) bs)) = []"
  by (induction bs) (simp_all add: button_change_def)

lemma filter_slider_diff:
  "filter is_slider_event (diff_events old_state new_state) = slider_change old_state new_state"
  by (simp add: diff_events_def slider_change_def axis_change_def)

lemma filter_axis_diff:
  "filter (is_axis_event STRATCOM_AXIS_X) (diff_events old_state new_state)
     = axis_change (axisX old_state) (axisX new_state) STRATCOM_AXIS_X"
  "filter (is_axis_event STRATCOM_AXIS_Y) (diff_events old_state new_state)
     = axis_change (axisY old_state) (axisY new_state) STRATCOM_AXIS_Y"
  "filter (is_axis_event STRATCOM_AXIS_Z) (diff_events old_state new_state)
     = axis_change (axisZ old_state) (axisZ new_state) STRATCOM_AXIS_Z"
  by (simp_all add: diff_events_def slider_change_def axis_change_def)

lemma filter_button_diff:
  "filter (is_button_event b) (diff_events old_state new_state) =
     (if b \<in> set canonical_buttons then button_change old_state new_state b else [])"
  by (simp add: diff_events_def slider_change_def axis_change_def
        filter_button_changes [OF distinct_canonical_buttons])

lemma diff_events_same: "diff_events st st = []"
  by (simp add: diff_events_def slider_change_def axis_change_def button_change_def)

lemma button_3_changes:
  assumes "n < 12"
  shows "button_change (st\<lparr>buttons := unset_bit 2 (buttons st)\<rparr>) (st\<lparr>buttons := set_bit 2 (buttons st)\<rparr>)
           (2 ^ n)
         = (if n = 2 then [STRATCOM_INPUT_EVENT_BUTTON STRATCOM_BUTTON_3 1] else [])"
proof -
  have n16: "n < 16" using assms by simp
  have o: "bit (unset_bit 2 (buttons st)) n \<longleftrightarrow> bit (buttons st) n \<and> n \<noteq> 2"
    by (auto simp add: bit_simps)
  have w: "bit (set_bit 2 (buttons st)) n \<longleftrightarrow> bit (buttons st) n \<or> n = 2"
    using n16 by (auto simp add: bit_simps)
  show ?thesis
  proof (cases "n = 2")
    case True
    have "pressed s 4 \<longleftrightarrow> bit (buttons s) 2" for s
      using pressed_single_bit [of 2 s] by simp
    then show ?thesis
      using True by (simp add: button_change_def STRATCOM_BUTTON_3_def bit_simps)
  next
    case False
    then show ?thesis
      by (simp add: button_change_def pressed_single_bit [OF n16] o w)
  qed
qed

lemma diff_events_button_3:
  "diff_events (st\<lparr>buttons := unset_bit 2 (buttons st)\<rparr>) (st\<lparr>buttons := set_bit 2 (buttons st)\<rparr>)
     = [STRATCOM_INPUT_EVENT_BUTTON STRATCOM_BUTTON_3 1]"
proof -
  have "concat (map (button_change (st\<lparr>buttons := unset_bit 2 (buttons st)\<rparr>)
                                    (st\<lparr>buttons := set_bit 2 (buttons st)\<rparr>)) canonical_buttons)
        = concat (map (\<lambda>n. if n = 2 then [STRATCOM_INPUT_EVENT_BUTTON STRATCOM_BUTTON_3 1] else [])
                      [0..<12])"
    unfolding canonical_single_bits map_map
    by (rule arg_cong [where f = concat], rule map_cong) (simp_all add: button_3_changes)
  also have "\<dots> = [STRATCOM_INPUT_EVENT_BUTTON STRATCOM_BUTTON_3 1]"
    by (simp add: upt_rec)
  finally show ?thesis
    by (simp add: diff_events_def slider_change_def axis_change_def)
qed

text \<open>
  C7. When no allocation fails, the list returned has one slider event if the slider
  changed and none otherwise, one event for each axis that changed and none for one
  that did not, and for every button exactly one event if the button is one of the
  twelve canonical ones and its pressed-state differs, and none otherwise. For two equal
  snapshots the list is empty. For two snapshots that differ only in the bit of button 3,
  clear in the old one and set in the new one, and memory for one node, the list is the
  single event "button 3 pressed".
\<close>

theorem event_diff_one_per_change:
  assumes "length (diff_events old_state new_state) \<le> budget h"
  shows "\<exists>evs. created_events old_state new_state h = Inr (Some evs)
     \<and> filter is_slider_event evs
         = (if slider old_state \<noteq> slider new_state
            then [STRATCOM_INPUT_EVENT_SLIDER (slider new_state)] else [])
     \<and> filter (is_axis_event STRATCOM_AXIS_X) evs
         = (if axisX old_state \<noteq> axisX new_state
            then [STRATCOM_INPUT_EVENT_AXIS STRATCOM_AXIS_X (axisX new_state)] else [])
     \<and> filter (is_axis_event STRATCOM_AXIS_Y) evs
         = (if axisY old_state \<noteq> axisY new_state
            then [STRATCOM_INPUT_EVENT_AXIS STRATCOM_AXIS_Y (axisY new_state)] else [])
     \<and> filter (is_axis_event STRATCOM_AXIS_Z) evs
         = (if axisZ old_state \<noteq> axisZ new_state
            then [STRATCOM_INPUT_EVENT_AXIS STRATCOM_AXIS_Z (axisZ new_state)] else [])
     \<and> (\<forall>b. filter (is_button_event b) evs
              = (if b \<in> set canonical_buttons \<and> pressed old_state b \<noteq> pressed new_state b
                 then [STRATCOM_INPUT_EVENT_BUTTON b (if pressed new_state b then 1 else 0)]
                 else []))
     \<and> created_events old_state old_state h = Inr (Some [])
     \<and> (1 \<le> budget h \<longrightarrow>
          created_events (old_state\<lparr>buttons := unset_bit 2 (buttons old_state)\<rparr>)
                         (old_state\<lparr>buttons := set_bit 2 (buttons old_state)\<rparr>) h
            = Inr (Some [STRATCOM_INPUT_EVENT_BUTTON STRATCOM_BUTTON_3 1]))"
proof -
  let ?evs = "rev (diff_events old_state new_state)"
  have a: "created_events old_state new_state h = Inr (Some ?evs)"
    using assms by (rule created_events_enough_memory)
  have s: "filter is_slider_event ?evs
         = (if slider old_state \<noteq> slider new_state
            then [STRATCOM_INPUT_EVENT_SLIDER (slider new_state)] else [])"
    by (simp add: rev_filter [symmetric] filter_slider_diff slider_change_def)
  have x: "filter (is_axis_event STRATCOM_AXIS_X) ?evs
         = (if axisX old_state \<noteq> axisX new_state
            then [STRATCOM_INPUT_EVENT_AXIS STRATCOM_AXIS_X (axisX new_state)] else [])"
    by (simp add: rev_filter [symmetric] filter_axis_diff axis_change_def)
  have y: "filter (is_axis_event STRATCOM_AXIS_Y) ?evs
         = (if axisY old_state \<noteq> axisY new_state
            then [STRATCOM_INPUT_EVENT_AXIS STRATCOM_AXIS_Y (axisY new_state)] else [])"
    by (simp add: rev_filter [symmetric] filter_axis_diff axis_change_def)
  have z: "filter (is_axis_event STRATCOM_AXIS_Z) ?evs
         = (if axisZ old_state \<noteq> axisZ new_state
            then [STRATCOM_INPUT_EVENT_AXIS STRATCOM_AXIS_Z (axisZ new_state)] else [])"
    by (simp add: rev_filter [symmetric] filter_axis_diff axis_change_def)
  have b: "\<forall>b. filter (is_button_event b) ?evs
              = (if b \<in> set canonical_buttons \<and> pressed old_state b \<noteq> pressed new_state b
                 then [STRATCOM_INPUT_EVENT_BUTTON b (if pressed new_state b then 1 else 0)]
                 else [])"
    by (simp add: rev_filter [symmetric] filter_button_diff button_change_def)
  have e: "created_events old_state old_state h = Inr (Some [])"
    using created_events_enough_memory [of old_state old_state h]
    by (simp add: diff_events_same)
  have t: "1 \<le> budget h \<longrightarrow>
          created_events (old_state\<lparr>buttons := unset_bit 2 (buttons old_state)\<rparr>)
                         (old_state\<lparr>buttons := set_bit 2 (buttons old_state)\<rparr>) h
            = Inr (Some [STRATCOM_INPUT_EVENT_BUTTON STRATCOM_BUTTON_3 1])"
    using created_events_enough_memory
      [of "old_state\<lparr>buttons := unset_bit 2 (buttons old_state)\<rparr>"
          "old_state\<lparr>buttons := set_bit 2 (buttons old_state)\<rparr>" h]
    by (simp add: diff_events_button_3)
  from a s x y z b e t show ?thesis by blast
qed

theorem event_diff_one_per_change_witness:
  "length (diff_events
     \<lparr>buttons = 0, slider = STRATCOM_SLIDER_1, axisX = 0, axisY = 0, axisZ = 0\<rparr>
     \<lparr>buttons = 0, slider = STRATCOM_SLIDER_2, axisX = 1, axisY = 0, axisZ = 0\<rparr>)
     \<le> budget \<lparr>cells = [], budget = 2\<rparr>
   \<and> 1 \<le> budget \<lparr>cells = [], budget = 2\<rparr>
   \<and> created_events
       (\<lparr>buttons = 0, slider = STRATCOM_SLIDER_1, axisX = 0, axisY = 0, axisZ = 0\<rparr>
          \<lparr>buttons := unset_bit 2 (buttons
             \<lparr>buttons = 0, slider = STRATCOM_SLIDER_1, axisX = 0, axisY = 0, axisZ = 0\<rparr>)\<rparr>)
       (\<lparr>buttons = 0, slider = STRATCOM_SLIDER_1, axisX = 0, axisY = 0, axisZ = 0\<rparr>
          \<lparr>buttons := set_bit 2 (buttons
             \<lparr>buttons = 0, slider = STRATCOM_SLIDER_1, axisX = 0, axisY = 0, axisZ = 0\<rparr>)\<rparr>)
       \<lparr>cells = [], budget = 2\<rparr>
     = Inr (Some [STRATCOM_INPUT_EVENT_BUTTON STRATCOM_BUTTON_3 1])"
proof -
  have h1: "length (diff_events
     \<lparr>buttons = 0, slider = STRATCOM_SLIDER_1, axisX = 0, axisY = 0, axisZ = 0\<rparr>
     \<lparr>buttons = 0, slider = STRATCOM_SLIDER_2, axisX = 1, axisY = 0, axisZ = 0\<rparr>)
     \<le> budget \<lparr>cells = [], budget = 2\<rparr>"
    by (simp add: slider_and_axis_example)
  have h2: "1 \<le> budget \<lparr>cells = [], budget = 2\<rparr>" by simp
  from event_diff_one_per_change [OF h1] h1 h2 show ?thesis by blast
qed

lemma button_3_example:
  "created_events
     \<lparr>buttons = 0, slider = STRATCOM_SLIDER_1, axisX = 0, axisY = 0, axisZ = 0\<rparr>
     \<lparr>buttons = 0x004, slider = STRATCOM_SLIDER_1, axisX = 0, axisY = 0, axisZ = 0\<rparr>
     \<lparr>cells = [], budget = 1\<rparr>
   = Inr (Some [STRATCOM_INPUT_EVENT_BUTTON STRATCOM_BUTTON_3 1])"
proof -
  let ?st = "\<lparr>buttons = 0, slider = STRATCOM_SLIDER_1, axisX = 0, axisY = 0, axisZ = 0\<rparr>"
  have d: "diff_events (?st\<lparr>buttons := unset_bit 2 (buttons ?st)\<rparr>)
             (?st\<lparr>buttons := set_bit 2 (buttons ?st)\<rparr>)
           = [STRATCOM_INPUT_EVENT_BUTTON STRATCOM_BUTTON_3 1]"
    by (rule diff_events_button_3)
  have o: "?st\<lparr>buttons := unset_bit 2 (buttons ?st)\<rparr> = ?st" by simp
  have n: "?st\<lparr>buttons := set_bit 2 (buttons ?st)\<rparr>
             = \<lparr>buttons = 0x004, slider = STRATCOM_SLIDER_1, axisX = 0, axisY = 0, axisZ = 0\<rparr>"
    by (simp add: set_bit_eq_or)
  show ?thesis
    using created_events_enough_memory
      [of ?st "\<lparr>buttons = 0x004, slider = STRATCOM_SLIDER_1, axisX = 0, axisY = 0, axisZ = 0\<rparr>"
          "\<lparr>cells = [], budget = 1\<rparr>"] d
    unfolding o n by simp
qed

subsection \<open>Allocation failure\<close>

lemma lookup_chain_live:
  assumes "length c \<le> a" "a < length c + length ds"
  shows "lookup (c @ chain ret (length c) ds) a \<noteq> None"
proof -
  have "None \<notin> set (chain r b ds)" for r b
    by (induction ds arbitrary: r b) simp_all
  moreover have "chain ret (length c) ds ! (a - length c) \<in> set (chain ret (length c) ds)"
    using assms by (intro nth_mem) simp
  ultimately have "chain ret (length c) ds ! (a - length c) \<noteq> None" by metis
  then show ?thesis using assms by (simp add: lookup_def nth_append)
qed

lemma try_block_throws_iff:
  "fst (events_try_block old_state new_state (None, h)) = Inl bad_alloc
     \<longleftrightarrow> budget h < length (diff_events old_state new_state)"
  by (simp add: events_try_block_eq add_events_run)

text \<open>
  C8. If an allocation fails while the list is built, then the \<open>try\<close> block has
  allocated as many nodes as memory allowed, all of them live and at fresh addresses, and
  the function returns \<open>nullptr\<close> with every one of these nodes released: no address
  from the first fresh one on holds a live node, and every cell that existed before the
  call is as it was.
\<close>

theorem allocation_failure_rolls_back:
  assumes "fst (events_try_block old_state new_state (None, h)) = Inl bad_alloc"
  shows "\<exists>h'. stratcom_create_input_events_from_states old_state new_state h = Inr (None, h')
     \<and> (\<forall>a. lookup (cells h') a = lookup (cells h) a)
     \<and> (\<forall>a. length (cells h) \<le> a \<longrightarrow> lookup (cells h') a = None)
     \<and> (\<forall>a. length (cells h) \<le> a \<and> a < length (cells h) + budget h \<longrightarrow>
            lookup (cells (snd (snd (events_try_block old_state new_state (None, h))))) a \<noteq> None)
     \<and> created_events old_state new_state h = Inr (Some [])"
proof -
  let ?ds = "diff_events old_state new_state"
  let ?h' = "h\<lparr>cells := cells h @ replicate (budget h) None, budget := 0\<rparr>"
  have short: "budget h < length ?ds"
    using assms by (simp only: try_block_throws_iff)
  then have r: "stratcom_create_input_events_from_states old_state new_state h = Inr (None, ?h')"
    by (simp add: create_result)
  have same: "\<forall>a. lookup (cells ?h') a = lookup (cells h) a"
    by (simp add: lookup_append_replicate_None)
  have gone: "\<forall>a. length (cells h) \<le> a \<longrightarrow> lookup (cells ?h') a = None"
    by (simp add: lookup_append_replicate_None) (simp add: lookup_def)
  have len: "length (take (budget h) ?ds) = budget h" using short by simp
  have live: "\<forall>a. length (cells h) \<le> a \<and> a < length (cells h) + budget h \<longrightarrow>
            lookup (cells (snd (snd (events_try_block old_state new_state (None, h))))) a \<noteq> None"
    using lookup_chain_live [of "cells h" _ "take (budget h) ?ds" None] len
    by (simp add: events_try_block_eq add_events_run)
  have e: "created_events old_state new_state h = Inr (Some [])"
    using short by (rule created_events_out_of_memory)
  from r same gone live e show ?thesis by blast
qed

theorem allocation_failure_rolls_back_witness:
  "fst (events_try_block
     \<lparr>buttons = 0, slider = STRATCOM_SLIDER_1, axisX = 0, axisY = 0, axisZ = 0\<rparr>
     \<lparr>buttons = 0, slider = STRATCOM_SLIDER_2, axisX = 1, axisY = 0, axisZ = 0\<rparr>
     (None, \<lparr>cells = [], budget = 1\<rparr>)) = Inl bad_alloc
   \<and> (\<exists>h'. stratcom_create_input_events_from_states
     \<lparr>buttons = 0, slider = STRATCOM_SLIDER_1, axisX = 0, axisY = 0, axisZ = 0\<rparr>
     \<lparr>buttons = 0, slider = STRATCOM_SLIDER_2, axisX = 1, axisY = 0, axisZ = 0\<rparr>
     \<lparr>cells = [], budget = 1\<rparr> = Inr (None, h')
       \<and> (\<forall>a. lookup (cells h') a = lookup (cells \<lparr>cells = [], budget = 1\<rparr>) a))"
proof -
  have h: "fst (events_try_block
     \<lparr>buttons = 0, slider = STRATCOM_SLIDER_1, axisX = 0, axisY = 0, axisZ = 0\<rparr>
     \<lparr>buttons = 0, slider = STRATCOM_SLIDER_2, axisX = 1, axisY = 0, axisZ = 0\<rparr>
     (None, \<lparr>cells = [], budget = 1\<rparr>)) = Inl bad_alloc"
    by (simp add: events_try_block_eq add_events_run slider_and_axis_example)
  from allocation_failure_rolls_back [OF h] h show ?thesis by blast
qed

lemma allocation_failure_example:
  "stratcom_create_input_events_from_states
     \<lparr>buttons = 0, slider = STRATCOM_SLIDER_1, axisX = 0, axisY = 0, axisZ = 0\<rparr>
     \<lparr>buttons = 0, slider = STRATCOM_SLIDER_2, axisX = 1, axisY = 0, axisZ = 0\<rparr>
     \<lparr>cells = [], budget = 1\<rparr> = Inr (None, \<lparr>cells = [None], budget = 0\<rparr>)"
  by (simp add: create_result slider_and_axis_example)

section \<open>Appending to an event list\<close>

lemma lookup_update_same:
  "a < length c \<Longrightarrow> lookup (c[a := v]) a = v"
  by (simp add: lookup_def)

lemma lookup_update_other:
  "a \<noteq> t \<Longrightarrow> lookup (c[t := v]) a = lookup c a"
  by (simp add: lookup_def)

lemma list_at_last:
  assumes "list_at c (Some p) xs"
  shows "\<exists>node. lookup c (fst (last xs)) = Some node \<and> next_ptr node = None
                 \<and> desc node = snd (last xs)"
  using assms
proof (induction xs arbitrary: p)
  case Nil
  then show ?case by simp
next
  case (Cons x xs)
  obtain a d where x: "x = (a, d)" by (cases x)
  from Cons.prems obtain node where
    n: "p = a" "lookup c a = Some node" "desc node = d" "list_at c (next_ptr node) xs"
    by (auto simp add: x split: option.splits)
  show ?case
  proof (cases xs)
    case Nil
    with n show ?thesis by (simp add: x)
  next
    case (Cons y ys)
    with n(4) obtain q where "next_ptr node = Some q" by (cases y) auto
    with n(4) Cons.IH [of q] show ?thesis by (simp add: Cons)
  qed
qed

lemma walk_to_tail_list:
  assumes "list_at c (Some p) xs"
  shows "walk_to_tail c p = Some (Inr (fst (last xs)))"
  using assms
proof (induction xs arbitrary: p)
  case Nil
  then show ?case by simp
next
  case (Cons x xs)
  obtain a d where x: "x = (a, d)" by (cases x)
  from Cons.prems obtain node where
    n: "p = a" "lookup c a = Some node" "desc node = d" "list_at c (next_ptr node) xs"
    by (auto simp add: x split: option.splits)
  show ?case
  proof (cases xs)
    case Nil
    with n show ?thesis by (subst walk_to_tail.simps) (simp add: x)
  next
    case (Cons y ys)
    with n(4) obtain q where q: "next_ptr node = Some q" by (cases y) auto
    have "walk_to_tail c p = walk_to_tail c q"
      by (subst walk_to_tail.simps) (simp add: n q)
    also have "\<dots> = Some (Inr (fst (last xs)))"
      using n(4) unfolding q by (rule Cons.IH)
    finally show ?thesis by (simp add: Cons)
  qed
qed

lemma list_at_update_other:
  assumes "list_at c q ys" "t \<notin> fst ` set ys"
  shows "list_at (c[t := v]) q ys"
  using assms
proof (induction ys arbitrary: q)
  case Nil
  then show ?case by simp
next
  case (Cons y ys)
  obtain a d where y: "y = (a, d)" by (cases y)
  from Cons.prems(1) obtain node where
    n: "q = Some a" "lookup c a = Some node" "desc node = d" "list_at c (next_ptr node) ys"
    by (auto simp add: y split: option.splits)
  have "a \<noteq> t" using Cons.prems(2) by (auto simp add: y)
  then have "lookup (c[t := v]) a = Some node" using n(2) by (simp add: lookup_update_other)
  moreover have "list_at (c[t := v]) (next_ptr node) ys"
    using n(4) Cons.prems(2) by (intro Cons.IH) auto
  ultimately show ?case using n by (simp add: y)
qed

text \<open>Linking a second list after the tail of a first one.\<close>

lemma list_at_link:
  assumes "list_at c (Some p) xs" "list_at c q ys" "fst (last xs) \<notin> fst ` set ys"
    and "lookup c (fst (last xs)) = Some node"
  shows "list_at (c[fst (last xs) := Some (node\<lparr>next_ptr := q\<rparr>)]) (Some p) (xs @ ys)"
  using assms
proof (induction xs arbitrary: p)
  case Nil
  then show ?case by simp
next
  case (Cons x xs)
  obtain a d where x: "x = (a, d)" by (cases x)
  let ?t = "fst (last (x # xs))"
  let ?c' = "c[?t := Some (node\<lparr>next_ptr := q\<rparr>)]"
  from Cons.prems(1) obtain na where
    n: "p = a" "lookup c a = Some na" "desc na = d" "list_at c (next_ptr na) xs"
    by (auto simp add: x split: option.splits)
  show ?case
  proof (cases xs)
    case Nil
    then have t: "?t = a" by (simp add: x)
    have "node = na" using Cons.prems(4) n(2) unfolding t by simp
    moreover have "a < length c" using n(2) by (rule lookup_Some_less)
    moreover have "list_at ?c' q ys"
      using Cons.prems(2,3) by (rule list_at_update_other)
    ultimately show ?thesis
      using n unfolding t by (simp add: x Nil lookup_update_same)
  next
    case (Cons y ys')
    then have t: "?t = fst (last xs)" by simp
    from n(4) obtain r where r: "next_ptr na = Some r" by (cases y) (auto simp add: Cons)
    obtain nt where nt: "lookup c (fst (last xs)) = Some nt" "next_ptr nt = None"
      using list_at_last [OF n(4) [unfolded r]] by blast
    have "a \<noteq> fst (last xs)"
    proof
      assume "a = fst (last xs)"
      with nt n(2) r show False by simp
    qed
    then have la: "lookup ?c' a = Some na"
      unfolding t using n(2) by (simp add: lookup_update_other)
    have "list_at (c[fst (last xs) := Some (node\<lparr>next_ptr := q\<rparr>)]) (Some r) (xs @ ys)"
      using n(4) [unfolded r] Cons.prems(2) Cons.prems(3) [unfolded t] Cons.prems(4) [unfolded t]
      by (rule Cons.IH)
    then show ?thesis
      using la n r unfolding t by (simp add: x)
  qed
qed

text \<open>
  What the event diff does to the heap, in either outcome: it returns the head of a list
  of fresh nodes (the empty list when an allocation failed) and leaves every cell that
  existed before as it was.
\<close>

lemma create_extends:
  "\<exists>new_events h1 ys.
     stratcom_create_input_events_from_states old_state new_state h = Inr (new_events, h1)
     \<and> list_at (cells h1) new_events ys
     \<and> (\<forall>a \<in> fst ` set ys. length (cells h) \<le> a)
     \<and> (\<forall>a. a < length (cells h) \<longrightarrow> lookup (cells h1) a = lookup (cells h) a)
     \<and> (\<forall>p xs. list_at (cells h) p xs \<longrightarrow> list_at (cells h1) p xs)"
proof (cases "length (diff_events old_state new_state) \<le> budget h")
  case True
  let ?ds = "diff_events old_state new_state"
  let ?ys = "rev (zip [length (cells h)..<length (cells h) + length ?ds] ?ds)"
  let ?h1 = "h\<lparr>cells := cells h @ chain None (length (cells h)) ?ds,
               budget := budget h - length ?ds\<rparr>"
  have r: "stratcom_create_input_events_from_states old_state new_state h
             = Inr (chain_head None (length (cells h)) ?ds, ?h1)"
    using True by (simp add: create_result)
  have "list_at (cells h) None []" by simp
  from list_at_chain [OF this, of ?ds]
  have l: "list_at (cells ?h1) (chain_head None (length (cells h)) ?ds) ?ys" by simp
  have f: "\<forall>a \<in> fst ` set ?ys. length (cells h) \<le> a"
    by (auto dest!: set_zip_leftD)
  have o: "\<forall>a. a < length (cells h) \<longrightarrow> lookup (cells ?h1) a = lookup (cells h) a"
    by (simp add: lookup_append_old)
  have k: "\<forall>p xs. list_at (cells h) p xs \<longrightarrow> list_at (cells ?h1) p xs"
    by (simp add: list_at_append)
  from r l f o k show ?thesis by blast
next
  case False
  let ?h1 = "h\<lparr>cells := cells h @ replicate (budget h) None, budget := 0\<rparr>"
  have r: "stratcom_create_input_events_from_states old_state new_state h = Inr (None, ?h1)"
    using False by (simp add: create_result)
  have l: "list_at (cells ?h1) None []" by simp
  have f: "\<forall>a \<in> fst ` set ([] :: (addr \<times> stratcom_input_event_desc) list). length (cells h) \<le> a"
    by simp
  have o: "\<forall>a. a < length (cells h) \<longrightarrow> lookup (cells ?h1) a = lookup (cells h) a"
    by (simp add: lookup_append_old)
  have k: "\<forall>p xs. list_at (cells h) p xs \<longrightarrow> list_at (cells ?h1) p xs"
    by (simp add: list_at_append)
  from r l f o k show ?thesis by blast
qed

text \<open>
  C9. Let the existing list be a well-formed list of the heap with first node
  \<open>first\<close>, so that it is not empty. Then the append returns: it answers the head of
  the sublist that the event diff generated, and the heap it leaves is the heap after the
  event diff with one cell changed, the tail node of the existing list, and of this node
  only the link, which was null and now points to the new sublist. Every other cell and
  every payload is as it was, and the list from \<open>first\<close> is the existing list followed
  by the new sublist. On the null pointer the append dereferences it, a fault.
\<close>

theorem append_links_after_tail:
  assumes "list_at (cells h) (Some first) xs"
  shows "\<exists>new_events h1 h2 ys node.
       stratcom_create_input_events_from_states old_state new_state h = Inr (new_events, h1)
     \<and> stratcom_append_input_events_from_states (Some first) old_state new_state h
         = Some (Inr (new_events, h2))
     \<and> list_at (cells h1) new_events ys
     \<and> lookup (cells h1) (fst (last xs)) = Some node
     \<and> next_ptr node = None
     \<and> h2 = h1\<lparr>cells := (cells h1)[fst (last xs) := Some (node\<lparr>next_ptr := new_events\<rparr>)]\<rparr>
     \<and> list_at (cells h2) (Some first) (xs @ ys)
     \<and> list_at (cells h2) new_events ys
     \<and> (\<forall>a. a \<noteq> fst (last xs) \<longrightarrow> lookup (cells h2) a = lookup (cells h1) a)
     \<and> (\<forall>a n. lookup (cells h1) a = Some n \<longrightarrow>
            (\<exists>n'. lookup (cells h2) a = Some n' \<and> desc n' = desc n))
     \<and> stratcom_append_input_events_from_states None old_state new_state h
         = Some (Inl invalid_pointer)"
proof -
  let ?t = "fst (last xs)"
  obtain new_events h1 ys where
    r: "stratcom_create_input_events_from_states old_state new_state h = Inr (new_events, h1)"
    and l: "list_at (cells h1) new_events ys"
    and f: "\<forall>a \<in> fst ` set ys. length (cells h) \<le> a"
    and k: "\<forall>p xs. list_at (cells h) p xs \<longrightarrow> list_at (cells h1) p xs"
    using create_extends [of old_state new_state h] by blast
  have x1: "list_at (cells h1) (Some first) xs" using assms k by blast
  obtain node0 where "lookup (cells h) ?t = Some node0"
    using list_at_last [OF assms] by blast
  then have told: "?t < length (cells h)" by (rule lookup_Some_less)
  obtain node where node: "lookup (cells h1) ?t = Some node" "next_ptr node = None"
    using list_at_last [OF x1] by blast
  have tl1: "?t < length (cells h1)" using node(1) by (rule lookup_Some_less)
  let ?h2 = "h1\<lparr>cells := (cells h1)[?t := Some (node\<lparr>next_ptr := new_events\<rparr>)]\<rparr>"
  have fresh: "?t \<notin> fst ` set ys"
  proof
    assume "?t \<in> fst ` set ys"
    with f have "length (cells h) \<le> ?t" by blast
    with told show False by simp
  qed
  have w: "walk_to_tail (cells h1) first = Some (Inr ?t)"
    using x1 by (rule walk_to_tail_list)
  have app: "stratcom_append_input_events_from_states (Some first) old_state new_state h
         = Some (Inr (new_events, ?h2))"
    by (simp add: stratcom_append_input_events_from_states_def r w node(1))
  have whole: "list_at (cells ?h2) (Some first) (xs @ ys)"
    using list_at_link [OF x1 l fresh node(1)] by simp
  have sub: "list_at (cells ?h2) new_events ys"
    using list_at_update_other [OF l fresh] by simp
  have frame: "\<forall>a. a \<noteq> ?t \<longrightarrow> lookup (cells ?h2) a = lookup (cells h1) a"
    by (simp add: lookup_update_other)
  have payload: "\<forall>a n. lookup (cells h1) a = Some n \<longrightarrow>
            (\<exists>n'. lookup (cells ?h2) a = Some n' \<and> desc n' = desc n)"
  proof (intro allI impI)
    fix a n assume a: "lookup (cells h1) a = Some n"
    show "\<exists>n'. lookup (cells ?h2) a = Some n' \<and> desc n' = desc n"
    proof (cases "a = ?t")
      case True
      with a node(1) have "n = node" by simp
      with True tl1 show ?thesis by (simp add: lookup_update_same)
    next
      case False
      with a show ?thesis by (simp add: lookup_update_other)
    qed
  qed
  have null: "stratcom_append_input_events_from_states None old_state new_state h
         = Some (Inl invalid_pointer)"
    by (simp add: stratcom_append_input_events_from_states_def r)
  from r app l node whole sub frame payload null show ?thesis by blast
qed

theorem append_links_after_tail_witness:
  "list_at (cells \<lparr>cells = [Some \<lparr>desc = STRATCOM_INPUT_EVENT_SLIDER STRATCOM_SLIDER_3,
                                     next_ptr = Some 1\<rparr>,
                               Some \<lparr>desc = STRATCOM_INPUT_EVENT_AXIS STRATCOM_AXIS_Y 5,
                                     next_ptr = None\<rparr>],
                     budget = 4\<rparr>)
     (Some 0)
     [(0, STRATCOM_INPUT_EVENT_SLIDER STRATCOM_SLIDER_3),
      (1, STRATCOM_INPUT_EVENT_AXIS STRATCOM_AXIS_Y 5)]
   \<and> stratcom_append_input_events_from_states (Some 0)
       \<lparr>buttons = 0, slider = STRATCOM_SLIDER_1, axisX = 0, axisY = 0, axisZ = 0\<rparr>
       \<lparr>buttons = 0, slider = STRATCOM_SLIDER_2, axisX = 1, axisY = 0, axisZ = 0\<rparr>
       \<lparr>cells = [Some \<lparr>desc = STRATCOM_INPUT_EVENT_SLIDER STRATCOM_SLIDER_3, next_ptr = Some 1\<rparr>,
                 Some \<lparr>desc = STRATCOM_INPUT_EVENT_AXIS STRATCOM_AXIS_Y 5, next_ptr = None\<rparr>],
        budget = 4\<rparr>
     = Some (Inr (Some 3,
         \<lparr>cells = [Some \<lparr>desc = STRATCOM_INPUT_EVENT_SLIDER STRATCOM_SLIDER_3, next_ptr = Some 1\<rparr>,
                   Some \<lparr>desc = STRATCOM_INPUT_EVENT_AXIS STRATCOM_AXIS_Y 5, next_ptr = Some 3\<rparr>,
                   Some \<lparr>desc = STRATCOM_INPUT_EVENT_SLIDER STRATCOM_SLIDER_2, next_ptr = None\<rparr>,
                   Some \<lparr>desc = STRATCOM_INPUT_EVENT_AXIS STRATCOM_AXIS_X 1, next_ptr = Some 2\<rparr>],
          budget = 2\<rparr>))"
proof -
  let ?h = "\<lparr>cells = [Some \<lparr>desc = STRATCOM_INPUT_EVENT_SLIDER STRATCOM_SLIDER_3,
                             next_ptr = Some 1\<rparr>,
                       Some \<lparr>desc = STRATCOM_INPUT_EVENT_AXIS STRATCOM_AXIS_Y 5,
                             next_ptr = None\<rparr>],
             budget = 4\<rparr>"
  let ?old = "\<lparr>buttons = 0, slider = STRATCOM_SLIDER_1, axisX = 0, axisY = 0, axisZ = 0\<rparr>"
  let ?new = "\<lparr>buttons = 0, slider = STRATCOM_SLIDER_2, axisX = 1, axisY = 0, axisZ = 0\<rparr>"
  let ?xs = "[(0 :: addr, STRATCOM_INPUT_EVENT_SLIDER STRATCOM_SLIDER_3),
              (1, STRATCOM_INPUT_EVENT_AXIS STRATCOM_AXIS_Y 5)]"
  have h: "list_at (cells ?h) (Some 0) ?xs"
    by (simp add: lookup_def)
  from append_links_after_tail [OF h, of ?old ?new]
  obtain new_events h1 h2 node where
    c: "stratcom_create_input_events_from_states ?old ?new ?h = Inr (new_events, h1)"
    and a: "stratcom_append_input_events_from_states (Some 0) ?old ?new ?h
              = Some (Inr (new_events, h2))"
    and n: "lookup (cells h1) (fst (last ?xs)) = Some node"
    and h2: "h2 = h1\<lparr>cells := (cells h1)[fst (last ?xs) := Some (node\<lparr>next_ptr := new_events\<rparr>)]\<rparr>"
    by blast
  have "stratcom_create_input_events_from_states ?old ?new ?h
          = Inr (Some 3,
              \<lparr>cells = [Some \<lparr>desc = STRATCOM_INPUT_EVENT_SLIDER STRATCOM_SLIDER_3, next_ptr = Some 1\<rparr>,
                   Some \<lparr>desc = STRATCOM_INPUT_EVENT_AXIS STRATCOM_AXIS_Y 5, next_ptr = None\<rparr>,
                   Some \<lparr>desc = STRATCOM_INPUT_EVENT_SLIDER STRATCOM_SLIDER_2, next_ptr = None\<rparr>,
                   Some \<lparr>desc = STRATCOM_INPUT_EVENT_AXIS STRATCOM_AXIS_X 1, next_ptr = Some 2\<rparr>],
               budget = 2\<rparr>)"
    by (simp add: create_result slider_and_axis_example)
  with c have e: "new_events = Some 3"
      "h1 = \<lparr>cells = [Some \<lparr>desc = STRATCOM_INPUT_EVENT_SLIDER STRATCOM_SLIDER_3, next_ptr = Some 1\<rparr>,
                   Some \<lparr>desc = STRATCOM_INPUT_EVENT_AXIS STRATCOM_AXIS_Y 5, next_ptr = None\<rparr>,
                   Some \<lparr>desc = STRATCOM_INPUT_EVENT_SLIDER STRATCOM_SLIDER_2, next_ptr = None\<rparr>,
                   Some \<lparr>desc = STRATCOM_INPUT_EVENT_AXIS STRATCOM_AXIS_X 1, next_ptr = Some 2\<rparr>],
               budget = 2\<rparr>"
    by simp_all
  from n have "node = \<lparr>desc = STRATCOM_INPUT_EVENT_AXIS STRATCOM_AXIS_Y 5, next_ptr = None\<rparr>"
    unfolding e by (simp add: lookup_def)
  with h2 have "h2 = \<lparr>cells = [Some \<lparr>desc = STRATCOM_INPUT_EVENT_SLIDER STRATCOM_SLIDER_3, next_ptr = Some 1\<rparr>,
                   Some \<lparr>desc = STRATCOM_INPUT_EVENT_AXIS STRATCOM_AXIS_Y 5, next_ptr = Some 3\<rparr>,
                   Some \<lparr>desc = STRATCOM_INPUT_EVENT_SLIDER STRATCOM_SLIDER_2, next_ptr = None\<rparr>,
                   Some \<lparr>desc = STRATCOM_INPUT_EVENT_AXIS STRATCOM_AXIS_X 1, next_ptr = Some 2\<rparr>],
               budget = 2\<rparr>"
    unfolding e by simp
  with a e h show ?thesis by simp
qed

end
